theory Spec2Isabelle
  imports Complex_Main
begin

section \<open>Initial condition\<close>

text \<open>
  The function \<^verbatim>\<open>IC\<close> of \<^verbatim>\<open>Buckley-Leverett.py\<close> allocates a zero array as long as
  its input and overwrites entry \<open>i\<close> for \<open>i = 0, ..., N - 1\<close>. Arrays of floats are
  lists of reals; the loop is a recursion on the loop index.
\<close>

function IC_loop :: "real list \<Rightarrow> nat \<Rightarrow> nat \<Rightarrow> real list \<Rightarrow> real list" where
  "IC_loop x i N u_init =
     (if i < N
      then IC_loop x (Suc i) N
             (if -0.5 \<le> x ! i \<and> x ! i \<le> 0 then u_init[i := 1] else u_init[i := 0])
      else u_init)"
  by pat_completeness auto
termination
  by (relation "measure (\<lambda>(x, i, N, u_init). N - i)") auto

definition IC :: "real list \<Rightarrow> real list" where
  "IC x = (let N = length x; u_init = replicate (length x) 0 in IC_loop x 0 N u_init)"

section \<open>Tensors with a differentiation graph\<close>

text \<open>
  Floating-point numbers are idealised as reals. A batch is a list of rows \<open>(t, x)\<close>:
  column 0 of the input tensor is time, column 1 is space. Every operation the program
  applies to a tracked tensor (the linear and tanh layers of the network, and the arithmetic
  of the flux) acts on each row independently, so a tracked tensor is modelled by the graph
  that computes one row of it from the row \<open>(t, x)\<close> of the differentiation root.
\<close>

type_synonym row = "real \<times> real"

datatype node =
    Inp_t
  | Inp_x
  | Const real
  | Add node node
  | Sub node node
  | Mul node node
  | Div node node
  | Pow2 node
  | Tanh node

fun eval :: "node \<Rightarrow> row \<Rightarrow> real" where
  "eval Inp_t p = fst p"
| "eval Inp_x p = snd p"
| "eval (Const c) p = c"
| "eval (Add a b) p = eval a p + eval b p"
| "eval (Sub a b) p = eval a p - eval b p"
| "eval (Mul a b) p = eval a p * eval b p"
| "eval (Div a b) p = eval a p / eval b p"
| "eval (Pow2 a) p = (eval a p)\<^sup>2"
| "eval (Tanh a) p = tanh (eval a p)"

text \<open>
  \<open>div_safe e p\<close>: no division node of \<open>e\<close> has a zero denominator at row \<open>p\<close>, so
  that \<open>eval\<close> never relies on the value HOL gives to \<open>a / 0\<close>.
\<close>

fun div_safe :: "node \<Rightarrow> row \<Rightarrow> bool" where
  "div_safe Inp_t p = True"
| "div_safe Inp_x p = True"
| "div_safe (Const c) p = True"
| "div_safe (Add a b) p = (div_safe a p \<and> div_safe b p)"
| "div_safe (Sub a b) p = (div_safe a p \<and> div_safe b p)"
| "div_safe (Mul a b) p = (div_safe a p \<and> div_safe b p)"
| "div_safe (Div a b) p = (div_safe a p \<and> div_safe b p \<and> eval b p \<noteq> 0)"
| "div_safe (Pow2 a) p = div_safe a p"
| "div_safe (Tanh a) p = div_safe a p"

text \<open>
  Reverse-mode differentiation: \<open>backward e p g\<close> propagates the incoming gradient \<open>g\<close>
  of the node \<open>e\<close> down to the two input columns of row \<open>p\<close> and returns what
  accumulates there, with the local derivative rules of the autograd engine.
\<close>

definition accumulate :: "real \<times> real \<Rightarrow> real \<times> real \<Rightarrow> real \<times> real" where
  "accumulate g h = (fst g + fst h, snd g + snd h)"

fun backward :: "node \<Rightarrow> row \<Rightarrow> real \<Rightarrow> real \<times> real" where
  "backward Inp_t p g = (g, 0)"
| "backward Inp_x p g = (0, g)"
| "backward (Const c) p g = (0, 0)"
| "backward (Add a b) p g = accumulate (backward a p g) (backward b p g)"
| "backward (Sub a b) p g = accumulate (backward a p g) (backward b p (- g))"
| "backward (Mul a b) p g =
     accumulate (backward a p (g * eval b p)) (backward b p (g * eval a p))"
| "backward (Div a b) p g =
     accumulate (backward a p (g / eval b p))
       (backward b p (- g * eval a p / (eval b p)\<^sup>2))"
| "backward (Pow2 a) p g = backward a p (g * (2 * eval a p))"
| "backward (Tanh a) p g = backward a p (g * (1 - (tanh (eval a p))\<^sup>2))"

text \<open>
  \<^verbatim>\<open>gradients(outputs, inputs)\<close> calls \<^verbatim>\<open>torch.autograd.grad\<close> with
  \<^verbatim>\<open>grad_outputs = ones_like(outputs)\<close>: every row is seeded with gradient 1. The
  result has the shape of \<^verbatim>\<open>inputs\<close>, one pair per row.
\<close>

definition gradients :: "node \<Rightarrow> row list \<Rightarrow> (real \<times> real) list" where
  "gradients outputs inputs = map (\<lambda>p. backward outputs p 1) inputs"

text \<open>
  \<^verbatim>\<open>.mean()\<close> of a tensor. The mean of an empty tensor is \<open>0 / 0\<close>, which the program
  computes as NaN: \<open>None\<close> stands for that result.
\<close>

definition mean :: "real list \<Rightarrow> real option" where
  "mean xs = (if xs = [] then None else Some (sum_list xs / real (length xs)))"

section \<open>The network\<close>

text \<open>
  A linear layer holds a weight matrix (one row of weights per output) and a bias vector;
  output \<open>i\<close> is \<open>b\<^sub>i + \<Sum>\<^sub>j W\<^sub>i\<^sub>j * h\<^sub>j\<close>.
\<close>

type_synonym linear = "real list list \<times> real list"

fun dot :: "real list \<Rightarrow> node list \<Rightarrow> node \<Rightarrow> node" where
  "dot (w # ws) (h # hs) acc = dot ws hs (Add acc (Mul (Const w) h))"
| "dot ws hs acc = acc"

definition Linear :: "linear \<Rightarrow> node list \<Rightarrow> node list" where
  "Linear l hs = map (\<lambda>(ws, b). dot ws hs (Const b)) (zip (fst l) (snd l))"

text \<open>
  \<^verbatim>\<open>DNN.__init__\<close> stacks \<^verbatim>\<open>Linear_layer_1\<close> to \<^verbatim>\<open>Linear_layer_6\<close>, each followed
  by a tanh layer, and \<^verbatim>\<open>Linear_layer_final\<close> with a single output and no activation.
  The parameters are arbitrary reals. The constructor fixes the widths (2, then 30 six
  times, then 1), so that every row of weights is as long as the input of its layer; the
  definitions are written for any number of layers and any widths.
\<close>

record DNN =
  Linear_layers :: "linear list"
  Linear_layer_final :: "real list \<times> real"

fun Sequential :: "linear list \<Rightarrow> node list \<Rightarrow> node list" where
  "Sequential [] hs = hs"
| "Sequential (l # ls) hs = Sequential ls (map Tanh (Linear l hs))"

definition net :: "DNN \<Rightarrow> node" where
  "net self =
     dot (fst (Linear_layer_final self)) (Sequential (Linear_layers self) [Inp_t, Inp_x])
       (Const (snd (Linear_layer_final self)))"

section \<open>Loss functions\<close>

datatype error = TypeError string | RuntimeError | IndexError | ValueError

definition flux_graph :: "node \<Rightarrow> node" where
  "flux_graph u = Div (Pow2 u) (Add (Mul (Const 4) (Pow2 u)) (Pow2 (Sub (Const 1) u)))"

text \<open>
  \<^verbatim>\<open>loss_pde\<close>: the first gradient is taken of the network output \<open>u\<close>, the second of
  the flux \<open>F\<close>, which is built on the same node \<open>u\<close>; both with respect to the batch.
  \<^verbatim>\<open>du_g[:, :1]\<close> is the first column of a gradient and \<^verbatim>\<open>[:, 1:]\<close> the second.
  The batch is a differentiation root, as \<^verbatim>\<open>main\<close> creates it.
\<close>

definition loss_pde :: "DNN \<Rightarrow> row list \<Rightarrow> real option" where
  "loss_pde self x =
     (let u = net self;
          du_g = gradients u x;
          u_t = map fst du_g;
          u_x = map snd du_g;
          F = flux_graph u;
          DF = gradients F x;
          F_x = map snd DF
      in mean (map (\<lambda>(a, b). (a + b)\<^sup>2) (zip u_t F_x)))"

text \<open>
  Elementwise difference of two one-dimensional tensors. Equal lengths subtract entry by
  entry, a tensor of length one is broadcast against the other, and any other pair of
  lengths raises.
\<close>

definition tensor_sub :: "real list \<Rightarrow> real list \<Rightarrow> error + real list" where
  "tensor_sub a b =
     (if length a = length b then Inr (map (\<lambda>(v, w). v - w) (zip a b))
      else if length b = 1 then Inr (map (\<lambda>v. v - b ! 0) a)
      else if length a = 1 then Inr (map (\<lambda>w. a ! 0 - w) b)
      else Inl RuntimeError)"

text \<open>
  The network applied to a batch. Its output has a single column, so the column
  \<^verbatim>\<open>y_ic[:, 0]\<close> that \<^verbatim>\<open>loss_ic\<close> selects is the list of the outputs.
\<close>

definition forward :: "DNN \<Rightarrow> row list \<Rightarrow> real list" where
  "forward self x = map (eval (net self)) x"

definition loss_ic :: "DNN \<Rightarrow> row list \<Rightarrow> real list \<Rightarrow> error + real option" where
  "loss_ic self x_ic u_ic =
     (let y_ic = forward self x_ic;
          u_ic_nn = y_ic
      in case tensor_sub u_ic_nn u_ic of
           Inl e \<Rightarrow> Inl e
         | Inr d \<Rightarrow> Inr (mean (map (\<lambda>v. v\<^sup>2) d)))"

text \<open>The flux as the specification writes it.\<close>

definition flux :: "real \<Rightarrow> real" where
  "flux u = u\<^sup>2 / (4 * u\<^sup>2 + (1 - u)\<^sup>2)"

section \<open>Conversion to arrays\<close>

text \<open>
  A tensor carries, besides its data, the properties that \<^verbatim>\<open>Tensor.numpy()\<close> inspects:
  whether it requires grad, its device, its layout, its element type and its conjugate and
  negative bits.
\<close>

datatype device = CPU | CUDA

datatype layout = Strided | Sparse

datatype dtype =
    Float16 | Float32 | Float64 | BFloat16 | Complex64 | Complex128
  | Int8 | Int16 | Int32 | Int64 | UInt8 | Bool

record 'a tensor =
  data :: 'a
  requires_grad :: bool
  on_device :: device
  layout :: layout
  dtype :: dtype
  conj_bit :: bool
  neg_bit :: bool

text \<open>
  What \<^verbatim>\<open>to_numpy\<close> can be handed: a tensor, an array, or an object of another type,
  of which only the name of the type matters.
\<close>

datatype 'a pyobj = Tensor "'a tensor" | Ndarray 'a | Other string

definition detach :: "'a tensor \<Rightarrow> 'a tensor" where
  "detach t = t\<lparr>requires_grad := False\<rparr>"

definition cpu :: "'a tensor \<Rightarrow> 'a tensor" where
  "cpu t = t\<lparr>on_device := CPU\<rparr>"

text \<open>The element types that have a NumPy counterpart: all of the above but bfloat16.\<close>

fun numpy_dtype :: "dtype \<Rightarrow> bool" where
  "numpy_dtype BFloat16 = False"
| "numpy_dtype d = True"

text \<open>
  \<^verbatim>\<open>Tensor.numpy()\<close>, after its documented behaviour: it refuses a tensor that is not in
  host memory, that is not strided, that requires grad, that has its conjugate or negative
  bit set, or whose element type NumPy does not have.
\<close>

definition numpy :: "'a tensor \<Rightarrow> error + 'a" where
  "numpy t =
     (if on_device t \<noteq> CPU then Inl (TypeError ''can't convert device type tensor to numpy'')
      else if layout t \<noteq> Strided then Inl (TypeError ''can't convert layout tensor to numpy'')
      else if requires_grad t then Inl RuntimeError
      else if conj_bit t then Inl RuntimeError
      else if neg_bit t then Inl RuntimeError
      else if \<not> numpy_dtype (dtype t) then Inl (TypeError ''Got unsupported ScalarType'')
      else Inr (data t))"

definition to_numpy :: "'a pyobj \<Rightarrow> error + 'a" where
  "to_numpy input =
     (case input of
        Tensor t \<Rightarrow> numpy (cpu (detach t))
      | Ndarray a \<Rightarrow> Inr a
      | Other ty \<Rightarrow>
          Inl (TypeError (''Unknown type of input, expected torch.Tensor or '' @
                          ''np.ndarray, but got '' @ ty)))"


section \<open>Sampling\<close>

definition linspace :: "real \<Rightarrow> real \<Rightarrow> nat \<Rightarrow> real list" where
  "linspace start stop num =
     (if num = 1 then [start]
      else map (\<lambda>i. start + real i * ((stop - start) / real (num - 1))) [0..<num])"

text \<open>
  \<^verbatim>\<open>np.meshgrid(t, x)\<close> returns two arrays of shape \<open>(len x, len t)\<close>: every row of the
  first is \<open>t\<close>, and row \<open>i\<close> of the second repeats \<open>x[i]\<close>. A two-dimensional array is
  the list of its rows, and \<^verbatim>\<open>flatten\<close> joins the rows in order.
\<close>

definition meshgrid :: "real list \<Rightarrow> real list \<Rightarrow> real list list \<times> real list list" where
  "meshgrid t x = (map (\<lambda>x_i. t) x, map (\<lambda>x_i. map (\<lambda>t_j. x_i) t) x)"

definition flatten :: "real list list \<Rightarrow> real list" where
  "flatten grid = concat grid"

fun traverse :: "('a \<Rightarrow> error + 'b) \<Rightarrow> 'a list \<Rightarrow> error + 'b list" where
  "traverse f [] = Inr []"
| "traverse f (a # as) =
     (case f a of
        Inl e \<Rightarrow> Inl e
      | Inr b \<Rightarrow> (case traverse f as of Inl e \<Rightarrow> Inl e | Inr bs \<Rightarrow> Inr (b # bs)))"

text \<open>
  \<^verbatim>\<open>a[ids]\<close> on a one-dimensional array, and \<^verbatim>\<open>grid[ids, 0]\<close> on a grid with
  \<open>ncols\<close> columns. The indices come from \<^verbatim>\<open>np.random.choice\<close> and are natural
  numbers; an index outside the array raises.
\<close>

definition take_ids :: "'a list \<Rightarrow> nat list \<Rightarrow> error + 'a list" where
  "take_ids a ids = traverse (\<lambda>k. if k < length a then Inr (a ! k) else Inl IndexError) ids"

definition take_ids_col0 :: "nat \<Rightarrow> 'a list list \<Rightarrow> nat list \<Rightarrow> error + 'a list" where
  "take_ids_col0 ncols grid ids =
     (if ncols = 0 then Inl IndexError
      else traverse (\<lambda>i. if i < length grid then Inr (grid ! i ! 0) else Inl IndexError) ids)"

text \<open>
  \<^verbatim>\<open>np.hstack\<close> of a time column and a space column: rows \<open>(t, x)\<close>. Columns of
  different lengths cannot be stacked.
\<close>

definition hstack :: "real list \<Rightarrow> real list \<Rightarrow> error + row list" where
  "hstack t_col x_col =
     (if length t_col = length x_col then Inr (zip t_col x_col) else Inl ValueError)"

record samples =
  x_ic_train :: "row list"
  u_ic_train :: "real list"
  x_int_train :: "row list"
  x_test :: "row list"

text \<open>
  The sampling part of \<^verbatim>\<open>main\<close>, for the axes \<open>x\<close>, \<open>t\<close> of the training grid, the
  axes \<open>xs\<close>, \<open>ts\<close> of the evaluation grid and the two index draws \<open>id_ic\<close> and
  \<open>id_f\<close> of \<^verbatim>\<open>np.random.choice\<close>. A column vector is the list of its entries, so
  that the reshaping \<^verbatim>\<open>[:, None]\<close> and the selection \<^verbatim>\<open>[:, 0]\<close> of the only column
  leave the list as it is. The conversion of the arrays to tensors rounds to single
  precision, which the reals do not show.
\<close>

definition sampling ::
  "real list \<Rightarrow> real list \<Rightarrow> real list \<Rightarrow> real list \<Rightarrow> nat list \<Rightarrow> nat list \<Rightarrow> error + samples" where
  "sampling x t xs ts id_ic id_f =
     (let (t_grid, x_grid) = meshgrid t x;
          T = flatten t_grid;
          X = flatten x_grid;
          (ts_grid, xs_grid) = meshgrid ts xs;
          Ts = flatten ts_grid;
          Xs = flatten xs_grid
      in case take_ids_col0 (length t) x_grid id_ic of Inl e \<Rightarrow> Inl e | Inr x_ic \<Rightarrow>
         case take_ids_col0 (length t) t_grid id_ic of Inl e \<Rightarrow> Inl e | Inr t_ic \<Rightarrow>
         case hstack t_ic x_ic of Inl e \<Rightarrow> Inl e | Inr x_ic_train' \<Rightarrow>
         let u_ic_train' = IC x_ic
         in case take_ids X id_f of Inl e \<Rightarrow> Inl e | Inr x_int \<Rightarrow>
            case take_ids T id_f of Inl e \<Rightarrow> Inl e | Inr t_int \<Rightarrow>
            case hstack t_int x_int of Inl e \<Rightarrow> Inl e | Inr x_int_train' \<Rightarrow>
            case hstack Ts Xs of Inl e \<Rightarrow> Inl e | Inr x_test' \<Rightarrow>
              Inr \<lparr>x_ic_train = x_ic_train', u_ic_train = u_ic_train',
                   x_int_train = x_int_train', x_test = x_test'\<rparr>)"

section \<open>Training\<close>

text \<open>
  The two lines printed in every epoch. The line before the loop and the elapsed time
  after it are left out.
\<close>

datatype line =
    Losses nat "real option" "real option"
  | Total nat "real option"

subsection \<open>What back-propagation writes\<close>

text \<open>
  The gradients of \<^verbatim>\<open>loss_pde\<close> are taken with \<^verbatim>\<open>create_graph=True\<close>: they are
  tracked tensors themselves. The graph of the derivative of a node with respect to an
  input column is again a node.
\<close>

datatype column = Col_t | Col_x

fun derivative :: "column \<Rightarrow> node \<Rightarrow> node" where
  "derivative c Inp_t = Const (if c = Col_t then 1 else 0)"
| "derivative c Inp_x = Const (if c = Col_x then 1 else 0)"
| "derivative c (Const k) = Const 0"
| "derivative c (Add a b) = Add (derivative c a) (derivative c b)"
| "derivative c (Sub a b) = Sub (derivative c a) (derivative c b)"
| "derivative c (Mul a b) = Add (Mul (derivative c a) b) (Mul a (derivative c b))"
| "derivative c (Div a b) =
     Sub (Div (derivative c a) b) (Div (Mul a (derivative c b)) (Pow2 b))"
| "derivative c (Pow2 a) = Mul (Mul (Const 2) a) (derivative c a)"
| "derivative c (Tanh a) = Mul (Sub (Const 1) (Pow2 (Tanh a))) (derivative c a)"

text \<open>The residual \<open>u_t + F_x\<close> of one row as a tracked tensor.\<close>

definition residual :: "DNN \<Rightarrow> node" where
  "residual self =
     (let u = net self; F = flux_graph u in Add (derivative Col_t u) (derivative Col_x F))"

text \<open>
  The interior batch is created with \<^verbatim>\<open>requires_grad=True\<close> and is a leaf, so that
  \<^verbatim>\<open>loss.backward()\<close> accumulates into its \<^verbatim>\<open>.grad\<close> the gradient of the total loss
  with respect to it. The total loss depends on the interior batch through
  \<open>0.1 * mean (residual\<^sup>2)\<close> only: row \<open>i\<close> of the gradient is the backward pass through
  the square of the residual of row \<open>i\<close>, for the incoming gradient \<open>0.1 / N\<close>.
\<close>

definition x_int_gradient :: "DNN \<Rightarrow> row list \<Rightarrow> (real \<times> real) list" where
  "x_int_gradient self x =
     map (\<lambda>p. backward (Pow2 (residual self)) p (0.1 / real (length x))) x"

text \<open>A \<^verbatim>\<open>.grad\<close> buffer is empty until the first gradient arrives; later ones are added.\<close>

definition accumulate_grad ::
  "(real \<times> real) list option \<Rightarrow> (real \<times> real) list \<Rightarrow> (real \<times> real) list option" where
  "accumulate_grad buffer g =
     (case buffer of
        None \<Rightarrow> Some g
      | Some old \<Rightarrow> Some (map (\<lambda>(a, b). accumulate a b) (zip old g)))"

subsection \<open>The state and one epoch\<close>

text \<open>
  The variables of \<^verbatim>\<open>main\<close> that are live during training: the sampled tensors, the
  \<^verbatim>\<open>.grad\<close> buffer of the interior batch, the network with the \<^verbatim>\<open>.grad\<close> buffers of
  its parameters, the optimizer and what has been printed.
\<close>

record ('o, 'g) state =
  sampled :: samples
  x_int_train_grad :: "(real \<times> real) list option"
  model :: DNN
  param_grad :: "'g option"
  optimizer :: 'o
  stdout :: "line list"

definition total_loss :: "real option \<Rightarrow> real option \<Rightarrow> real option" where
  "total_loss l_pde l_ic =
     (case (l_pde, l_ic) of
        (Some a, Some b) \<Rightarrow> Some (0.1 * a + 10 * b)
      | _ \<Rightarrow> None)"

text \<open>The total loss on the sampled tensors as a function of the parameters.\<close>

definition objective :: "samples \<Rightarrow> DNN \<Rightarrow> real option" where
  "objective d m =
     (case loss_ic m (x_ic_train d) (u_ic_train d) of
        Inl e \<Rightarrow> None
      | Inr l_ic \<Rightarrow> total_loss (loss_pde m (x_int_train d)) l_ic)"

text \<open>
  The graph above keeps the weights as constants. What \<^verbatim>\<open>loss.backward()\<close> writes into
  the \<^verbatim>\<open>.grad\<close> buffers of the parameters, the gradient of the back-propagated loss with
  respect to them, is given by a parameter \<open>bw\<close> of the model: from the loss as a function
  of the parameters and the current parameters it produces the content of the buffers.
  The optimizer is a parameter \<open>opt\<close>: from its own state, the content of the buffers and
  the current parameters it produces its next state and the next parameters.
\<close>

type_synonym 'g backward_step = "(DNN \<Rightarrow> real option) \<Rightarrow> DNN \<Rightarrow> 'g"

type_synonym ('o, 'g) optimizer_step = "'o \<Rightarrow> 'g \<Rightarrow> DNN \<Rightarrow> 'o \<times> DNN"

text \<open>
  \<^verbatim>\<open>closure\<close>: clear the buffers of the parameters, evaluate both losses on the current
  parameters, print them, back-propagate their weighted sum and return it. The result is
  the returned loss and the state that the closure leaves.
\<close>

definition closure ::
  "'g backward_step \<Rightarrow> nat \<Rightarrow> ('o, 'g) state \<Rightarrow> error + real option \<times> ('o, 'g) state" where
  "closure bw epoch s =
     (let s1 = s\<lparr>param_grad := None\<rparr>;
          l_pde = loss_pde (model s1) (x_int_train (sampled s1))
      in case loss_ic (model s1) (x_ic_train (sampled s1)) (u_ic_train (sampled s1)) of
           Inl e \<Rightarrow> Inl e
         | Inr l_ic \<Rightarrow>
             let loss = total_loss l_pde l_ic;
                 s2 = s1\<lparr>stdout := stdout s1 @ [Losses epoch l_pde l_ic]\<rparr>;
                 s3 = s2\<lparr>param_grad := Some (bw (objective (sampled s2)) (model s2)),
                         x_int_train_grad :=
                           accumulate_grad (x_int_train_grad s2)
                             (x_int_gradient (model s2) (x_int_train (sampled s2)))\<rparr>
             in Inr (loss, s3))"

text \<open>
  One epoch: \<^verbatim>\<open>optimizer.step(closure)\<close> runs the closure once and updates the parameters
  from their buffers (parameters without a gradient are left alone), then the loss is
  printed. An exception of the closure ends the epoch. The call \<^verbatim>\<open>model.train()\<close> sets
  a flag that linear and tanh layers do not read.
\<close>

definition train ::
  "'g backward_step \<Rightarrow> ('o, 'g) optimizer_step \<Rightarrow> nat \<Rightarrow> ('o, 'g) state \<Rightarrow>
   error + ('o, 'g) state" where
  "train bw opt epoch s =
     (case closure bw epoch s of
        Inl e \<Rightarrow> Inl e
      | Inr (loss, s1) \<Rightarrow>
          let s2 = (case param_grad s1 of
                      None \<Rightarrow> s1
                    | Some g \<Rightarrow>
                        let (o', m') = opt (optimizer s1) g (model s1)
                        in s1\<lparr>model := m', optimizer := o'\<rparr>)
          in Inr (s2\<lparr>stdout := stdout s2 @ [Total epoch loss]\<rparr>))"

fun epoch_of :: "line \<Rightarrow> nat" where
  "epoch_of (Losses epoch l_pde l_ic) = epoch"
| "epoch_of (Total epoch loss) = epoch"

fun for_epochs ::
  "'g backward_step \<Rightarrow> ('o, 'g) optimizer_step \<Rightarrow> nat list \<Rightarrow> ('o, 'g) state \<Rightarrow>
   error + ('o, 'g) state" where
  "for_epochs bw opt [] s = Inr s"
| "for_epochs bw opt (epoch # rest) s =
     (case train bw opt epoch s of Inl e \<Rightarrow> Inl e | Inr s' \<Rightarrow> for_epochs bw opt rest s')"

text \<open>
  An optimizer instrumented with a counter of the steps it has taken; the counter does not
  influence the optimizer.
\<close>

definition counted :: "('o, 'g) optimizer_step \<Rightarrow> (nat \<times> 'o, 'g) optimizer_step" where
  "counted opt = (\<lambda>(n, o1) g m. let (o', m') = opt o1 g m in ((Suc n, o'), m'))"

definition num_x :: nat where "num_x = 1000"
definition num_t :: nat where "num_t = 1000"
definition epochs :: nat where "epochs = 49911"

text \<open>
  \<^verbatim>\<open>main\<close>: sample once, train for \<open>epochs\<close> epochs, evaluate the network on the
  dense grid. The initial parameters \<open>m0\<close>, the optimizer with its initial state \<open>o0\<close>
  and the index draws are inputs; the learning rate is a setting of the optimizer and the
  two sample counts are the lengths of the draws. All gradient buffers are empty at the
  start. The result is the final state and the field that is saved.
\<close>

definition main ::
  "'g backward_step \<Rightarrow> ('o, 'g) optimizer_step \<Rightarrow> 'o \<Rightarrow> DNN \<Rightarrow> nat list \<Rightarrow> nat list \<Rightarrow>
   error + ('o, 'g) state \<times> real list" where
  "main bw opt o0 m0 id_ic id_f =
     (let x = linspace (-2.625) 2.5 num_x;
          t = linspace 0 1.5 num_t;
          xs = linspace (-1) 1 num_x;
          ts = linspace 0 1.5 num_t
      in case sampling x t xs ts id_ic id_f of
           Inl e \<Rightarrow> Inl e
         | Inr d \<Rightarrow>
             (case for_epochs bw opt [1..<epochs + 1]
                     \<lparr>sampled = d, x_int_train_grad = None, model = m0, param_grad = None,
                      optimizer = o0, stdout = []\<rparr> of
                Inl e \<Rightarrow> Inl e
              | Inr s \<Rightarrow>
                  (case to_numpy (Tensor \<lparr>data = forward (model s) (x_test (sampled s)),
                                          requires_grad = True, on_device = CPU,
                                          layout = Strided, dtype = Float32,
                                          conj_bit = False, neg_bit = False\<rparr>) of
                     Inl e \<Rightarrow> Inl e
                   | Inr u_pred \<Rightarrow> Inr (s, u_pred))))"

section \<open>Single precision\<close>

text \<open>
  The program computes in single precision. What the losses compute is described above
  over the reals; where a result depends on overflow to an infinity, on underflow to zero
  or on NaN, the same lines are described here over single-precision values. A value is a
  finite real (that a float represents), an infinity or NaN; the two zeros are not told
  apart.
\<close>

datatype f32 = Fin real | PInf | NInf | NaN

text \<open>
  Rounding to the nearest float, ties to even: the spacing of the floats around \<open>x\<close> is
  \<open>2\<close> to the power \<open>ulp_exponent x\<close> (24 significant bits, least exponent \<open>-126\<close>),
  and a result of magnitude \<open>2\<^sup>1\<^sup>2\<^sup>8\<close> or more is an infinity.
\<close>

definition round_half_even :: "real \<Rightarrow> int" where
  "round_half_even y =
     (let n = \<lfloor>y\<rfloor>; r = y - of_int n
      in if r < 1 / 2 then n else if 1 / 2 < r then n + 1 else if even n then n else n + 1)"

definition ulp_exponent :: "real \<Rightarrow> int" where
  "ulp_exponent x = max \<lfloor>log 2 \<bar>x\<bar>\<rfloor> (- 126) - 23"

definition rn :: "real \<Rightarrow> f32" where
  "rn x =
     (if x = 0 then Fin 0
      else let q = 2 powi ulp_exponent x;
               v = of_int (round_half_even (x / q)) * q
           in if 2 ^ 128 \<le> \<bar>v\<bar> then (if 0 < x then PInf else NInf) else Fin v)"

text \<open>
  The arithmetic of IEEE 754 on these values: an operation on finite values rounds the
  exact result, and the cases with an infinity or NaN are as the standard has them.
\<close>

fun neg32 :: "f32 \<Rightarrow> f32" where
  "neg32 (Fin x) = Fin (- x)"
| "neg32 PInf = NInf"
| "neg32 NInf = PInf"
| "neg32 NaN = NaN"

fun add32 :: "f32 \<Rightarrow> f32 \<Rightarrow> f32" where
  "add32 NaN b = NaN"
| "add32 a NaN = NaN"
| "add32 PInf NInf = NaN"
| "add32 NInf PInf = NaN"
| "add32 PInf b = PInf"
| "add32 a PInf = PInf"
| "add32 NInf b = NInf"
| "add32 a NInf = NInf"
| "add32 (Fin x) (Fin y) = rn (x + y)"

definition sub32 :: "f32 \<Rightarrow> f32 \<Rightarrow> f32" where
  "sub32 a b = add32 a (neg32 b)"

fun mul32 :: "f32 \<Rightarrow> f32 \<Rightarrow> f32" where
  "mul32 NaN b = NaN"
| "mul32 a NaN = NaN"
| "mul32 (Fin x) (Fin y) = rn (x * y)"
| "mul32 (Fin x) PInf = (if x = 0 then NaN else if 0 < x then PInf else NInf)"
| "mul32 (Fin x) NInf = (if x = 0 then NaN else if 0 < x then NInf else PInf)"
| "mul32 PInf (Fin y) = (if y = 0 then NaN else if 0 < y then PInf else NInf)"
| "mul32 NInf (Fin y) = (if y = 0 then NaN else if 0 < y then NInf else PInf)"
| "mul32 PInf PInf = PInf"
| "mul32 PInf NInf = NInf"
| "mul32 NInf PInf = NInf"
| "mul32 NInf NInf = PInf"

fun div32 :: "f32 \<Rightarrow> f32 \<Rightarrow> f32" where
  "div32 NaN b = NaN"
| "div32 a NaN = NaN"
| "div32 (Fin x) (Fin y) =
     (if y = 0 then (if x = 0 then NaN else if 0 < x then PInf else NInf) else rn (x / y))"
| "div32 (Fin x) PInf = Fin 0"
| "div32 (Fin x) NInf = Fin 0"
| "div32 PInf (Fin y) = (if 0 \<le> y then PInf else NInf)"
| "div32 NInf (Fin y) = (if 0 \<le> y then NInf else PInf)"
| "div32 PInf PInf = NaN"
| "div32 PInf NInf = NaN"
| "div32 NInf PInf = NaN"
| "div32 NInf NInf = NaN"

definition sq32 :: "f32 \<Rightarrow> f32" where
  "sq32 v = mul32 v v"

text \<open>
  \<^verbatim>\<open>.mean()\<close>: the sum of the entries divided by their number. The library fixes the
  order in which the entries are added; they are added from left to right here.
\<close>

definition mean32 :: "f32 list \<Rightarrow> f32" where
  "mean32 vs = div32 (foldl add32 (Fin 0) vs) (rn (real (length vs)))"

fun nonneg32 :: "f32 \<Rightarrow> bool" where
  "nonneg32 (Fin v) = (0 \<le> v)"
| "nonneg32 PInf = True"
| "nonneg32 NInf = False"
| "nonneg32 NaN = False"

definition nan_or_nonneg :: "f32 \<Rightarrow> bool" where
  "nan_or_nonneg r \<longleftrightarrow> r = NaN \<or> nonneg32 r"

text \<open>
  The kernels of the linear and tanh layers and of their backward pass are library code
  whose rounding is not fixed by the program. A network in single precision is therefore
  given by what it returns: its output on a row, and the gradient with respect to the row
  that its backward pass returns for an incoming gradient of the output.
\<close>

record network32 =
  output32 :: "row \<Rightarrow> f32"
  vjp32 :: "row \<Rightarrow> f32 \<Rightarrow> f32 \<times> f32"

text \<open>\<^verbatim>\<open>loss_ic\<close> in single precision.\<close>

definition tensor_sub32 :: "f32 list \<Rightarrow> f32 list \<Rightarrow> error + f32 list" where
  "tensor_sub32 a b =
     (if length a = length b then Inr (map (\<lambda>(v, w). sub32 v w) (zip a b))
      else if length b = 1 then Inr (map (\<lambda>v. sub32 v (b ! 0)) a)
      else if length a = 1 then Inr (map (\<lambda>w. sub32 (a ! 0) w) b)
      else Inl RuntimeError)"

definition loss_ic32 :: "network32 \<Rightarrow> row list \<Rightarrow> f32 list \<Rightarrow> error + f32" where
  "loss_ic32 self x_ic u_ic =
     (let y_ic = map (output32 self) x_ic;
          u_ic_nn = y_ic
      in case tensor_sub32 u_ic_nn u_ic of
           Inl e \<Rightarrow> Inl e
         | Inr d \<Rightarrow> Inr (mean32 (map sq32 d)))"

text \<open>
  Line 53 of \<^verbatim>\<open>loss_pde\<close> in single precision, and the backward pass of autograd
  through it: \<open>flux_backward32 u g\<close> is the gradient that arrives at \<open>u\<close> when \<open>g\<close>
  arrives at \<open>F\<close>, with the local rules of division, power, multiplication by a scalar
  and subtraction from a scalar.
\<close>

definition flux32 :: "f32 \<Rightarrow> f32" where
  "flux32 u = div32 (sq32 u) (add32 (mul32 (Fin 4) (sq32 u)) (sq32 (sub32 (Fin 1) u)))"

definition flux_backward32 :: "f32 \<Rightarrow> f32 \<Rightarrow> f32" where
  "flux_backward32 u g =
     (let n = sq32 u;
          d = add32 (mul32 (Fin 4) (sq32 u)) (sq32 (sub32 (Fin 1) u));
          g_n = div32 g d;
          g_d = div32 (mul32 (neg32 g) n) (mul32 d d);
          via_n = mul32 g_n (mul32 (Fin 2) u);
          via_4 = mul32 (mul32 g_d (Fin 4)) (mul32 (Fin 2) u);
          via_1 = neg32 (mul32 g_d (mul32 (Fin 2) (sub32 (Fin 1) u)))
      in add32 (add32 via_n via_4) via_1)"

text \<open>
  \<^verbatim>\<open>loss_pde\<close> in single precision: the gradient of \<open>u\<close> is the backward pass of the
  network for the incoming gradient 1, the gradient of \<open>F\<close> is the backward pass of the
  network for what arrives at \<open>u\<close> from \<open>F\<close>.
\<close>

definition loss_pde32 :: "network32 \<Rightarrow> row list \<Rightarrow> f32" where
  "loss_pde32 self x =
     (let du_g = map (\<lambda>p. vjp32 self p (Fin 1)) x;
          u_t = map fst du_g;
          DF = map (\<lambda>p. vjp32 self p (flux_backward32 (output32 self p) (Fin 1))) x;
          F_x = map snd DF
      in mean32 (map (\<lambda>(a, b). sq32 (add32 a b)) (zip u_t F_x)))"

text \<open>
  The network with all weights zero and final bias \<open>b\<close>: every product of its forward
  pass is zero, so that its output is \<open>b\<close> on every row, and its backward pass multiplies
  the incoming gradient by zero.
\<close>

definition zero_weights32 :: "real \<Rightarrow> network32" where
  "zero_weights32 b =
     \<lparr>output32 = (\<lambda>p. Fin b), vjp32 = (\<lambda>p g. (mul32 g (Fin 0), mul32 g (Fin 0)))\<rparr>"

section \<open>Small instances\<close>

text \<open>
  A network with a single tanh unit, \<open>u = tanh t\<close>, and a batch of two rows, on which
  the definitions are evaluated.
\<close>

definition example_net :: DNN where
  "example_net = \<lparr>Linear_layers = [([[1, 0]], [0])], Linear_layer_final = ([1], 0)\<rparr>"

definition example_batch :: "row list" where
  "example_batch = [(0, 0), (0, 1)]"

text \<open>
  A network whose output depends on both inputs, \<open>u = tanh (t + x) + 1/2\<close>, and a batch
  of two rows on the line \<open>t + x = 0\<close>.
\<close>

definition shifted_net :: DNN where
  "shifted_net = \<lparr>Linear_layers = [([[1, 1]], [0])], Linear_layer_final = ([1], 1 / 2)\<rparr>"

definition shifted_batch :: "row list" where
  "shifted_batch = [(0, 0), (1, -1)]"

text \<open>The network of \<^verbatim>\<open>DNN.__init__\<close>, widths 2, 30 (six times) and 1, all parameters zero.\<close>

definition zero_net :: DNN where
  "zero_net =
     \<lparr>Linear_layers =
        (replicate 30 [0, 0], replicate 30 0) #
        replicate 5 (replicate 30 (replicate 30 0), replicate 30 0),
      Linear_layer_final = (replicate 30 0, 0)\<rparr>"

text \<open>
  Training states on the two small networks, with empty gradient buffers, a backward step
  that records nothing about the parameters and an optimizer that leaves the parameters as
  they are.
\<close>

definition example_state :: "(unit, unit) state" where
  "example_state =
     \<lparr>sampled = \<lparr>x_ic_train = example_batch, u_ic_train = [1, 0],
                  x_int_train = example_batch, x_test = example_batch\<rparr>,
      x_int_train_grad = None, model = example_net, param_grad = None,
      optimizer = (), stdout = []\<rparr>"

definition shifted_state :: "(unit, unit) state" where
  "shifted_state =
     \<lparr>sampled = \<lparr>x_ic_train = shifted_batch, u_ic_train = [1, 0],
                  x_int_train = shifted_batch, x_test = shifted_batch\<rparr>,
      x_int_train_grad = None, model = shifted_net, param_grad = None,
      optimizer = (), stdout = []\<rparr>"

definition unit_backward :: "unit backward_step" where
  "unit_backward L m = ()"

definition keep_parameters :: "(unit, unit) optimizer_step" where
  "keep_parameters o1 g m = (o1, m)"

section \<open>The initial condition is the indicator of the closed interval\<close>

declare IC_loop.simps [simp del]

lemma length_IC_loop: "length (IC_loop x i N u) = length u"
  by (induction x i N u rule: IC_loop.induct) (subst IC_loop.simps, simp)

lemma IC_loop_nth_below: "k < i \<Longrightarrow> IC_loop x i N u ! k = u ! k"
proof (induction x i N u rule: IC_loop.induct)
  case (1 x i N u)
  show ?case
  proof (cases "i < N")
    case True
    with 1 show ?thesis by (subst IC_loop.simps) simp
  next
    case False
    then show ?thesis by (subst IC_loop.simps) simp
  qed
qed

lemma IC_loop_nth:
  "i \<le> k \<Longrightarrow> k < N \<Longrightarrow> N \<le> length u \<Longrightarrow>
   IC_loop x i N u ! k = (if -0.5 \<le> x ! k \<and> x ! k \<le> 0 then 1 else 0)"
proof (induction x i N u rule: IC_loop.induct)
  case (1 x i N u)
  from "1.prems" have iN: "i < N" by simp
  show ?case
  proof (cases "k = i")
    case True
    have "IC_loop x i N u ! k =
          (if -0.5 \<le> x ! i \<and> x ! i \<le> 0 then u[i := 1] else u[i := 0]) ! k"
      using iN True by (subst IC_loop.simps) (simp add: IC_loop_nth_below)
    with True iN "1.prems" show ?thesis by simp
  next
    case False
    with "1.prems" have "Suc i \<le> k" by simp
    with "1.IH"[OF iN] "1.prems" iN show ?thesis
      by (subst IC_loop.simps) (simp split: if_splits)
  qed
qed

lemma IC_eq_map: "IC x = map (\<lambda>v. if -0.5 \<le> v \<and> v \<le> 0 then 1 else 0) x"
  by (rule nth_equalityI) (simp_all add: IC_def length_IC_loop IC_loop_nth)

text \<open>
  Claim C3. For every array \<open>x\<close> of reals, \<^verbatim>\<open>IC\<close> returns an array of the same length
  whose entry is 1 where the entry \<open>v\<close> of \<open>x\<close> satisfies \<open>-0.5 \<le> v \<le> 0\<close> and 0
  elsewhere. Both boundaries are inclusive: the inputs \<open>-0.5\<close> and \<open>0\<close> give 1, the
  inputs \<open>0.0001\<close> and \<open>-0.5001\<close> give 0.
\<close>

theorem IC_indicator:
  "IC x = map (\<lambda>v. if -0.5 \<le> v \<and> v \<le> 0 then 1 else 0) x \<and>
   IC [-0.5, 0, 0.0001, -0.5001] = [1, 1, 0, 0]"
  by (simp add: IC_eq_map)

section \<open>Reverse-mode differentiation returns the exact partial derivatives\<close>

lemma backward_scale:
  "backward e p g = (g * fst (backward e p 1), g * snd (backward e p 1))"
proof (induction e arbitrary: g)
  case (Add a b)
  show ?case
    by (simp add: accumulate_def Add.IH[of g] algebra_simps)
next
  case (Sub a b)
  show ?case
    by (simp add: accumulate_def Sub.IH(1)[of g] Sub.IH(2)[of "- g"] Sub.IH(2)[of "- 1"] algebra_simps)
next
  case (Mul a b)
  show ?case
    by (simp add: accumulate_def Mul.IH(1)[of "g * eval b p"] Mul.IH(2)[of "g * eval a p"]
        Mul.IH(1)[of "eval b p"] Mul.IH(2)[of "eval a p"] algebra_simps)
next
  case (Div a b)
  define ca where "ca = 1 / eval b p"
  define cb where "cb = - (eval a p / (eval b p)\<^sup>2)"
  have 1: "backward (Div a b) p k = accumulate (backward a p (k * ca)) (backward b p (k * cb))" for k
    by (simp add: ca_def cb_def)
  show ?case
    unfolding 1 Div.IH(1)[of "g * ca"] Div.IH(2)[of "g * cb"]
      Div.IH(1)[of "1 * ca"] Div.IH(2)[of "1 * cb"]
    by (simp add: accumulate_def algebra_simps)
next
  case (Pow2 a)
  define c where "c = 2 * eval a p"
  have 1: "backward (Pow2 a) p k = backward a p (k * c)" for k
    by (simp add: c_def)
  show ?case
    unfolding 1 Pow2.IH[of "g * c"] Pow2.IH[of "1 * c"] by simp
next
  case (Tanh a)
  define c where "c = 1 - (tanh (eval a p))\<^sup>2"
  have 1: "backward (Tanh a) p k = backward a p (k * c)" for k
    by (simp add: c_def)
  show ?case
    unfolding 1 Tanh.IH[of "g * c"] Tanh.IH[of "1 * c"] by simp
qed simp_all

lemma backward_deriv_t:
  "div_safe e (t, x) \<Longrightarrow>
   ((\<lambda>s. eval e (s, x)) has_real_derivative fst (backward e (t, x) 1)) (at t)"
proof (induction e)
  case (Mul a b)
  then show ?case
    by (auto intro!: derivative_eq_intros
        simp: accumulate_def backward_scale[of a _ "eval b (t, x)"] backward_scale[of b _ "eval a (t, x)"])
next
  case (Div a b)
  then show ?case
    apply (auto intro!: derivative_eq_intros
        simp: accumulate_def backward_scale[of a _ "1 / eval b (t, x)"]
          backward_scale[of b _ "- (eval a (t, x) / (eval b (t, x))\<^sup>2)"])
    apply (simp add: field_simps power2_eq_square)
    done
next
  case (Sub a b)
  then show ?case
    by (auto intro!: derivative_eq_intros simp: accumulate_def backward_scale[of b _ "- 1"])
next
  case (Pow2 a)
  then show ?case
    by (auto intro!: derivative_eq_intros simp: backward_scale[of a _ "2 * eval a (t, x)"])
next
  case (Tanh a)
  then show ?case
    by (auto intro!: derivative_eq_intros
        simp: backward_scale[of a _ "1 - (tanh (eval a (t, x)))\<^sup>2"])
qed (auto intro!: derivative_eq_intros simp: accumulate_def)

lemma backward_deriv_x:
  "div_safe e (t, x) \<Longrightarrow>
   ((\<lambda>s. eval e (t, s)) has_real_derivative snd (backward e (t, x) 1)) (at x)"
proof (induction e)
  case (Mul a b)
  then show ?case
    by (auto intro!: derivative_eq_intros
        simp: accumulate_def backward_scale[of a _ "eval b (t, x)"] backward_scale[of b _ "eval a (t, x)"])
next
  case (Div a b)
  then show ?case
    apply (auto intro!: derivative_eq_intros
        simp: accumulate_def backward_scale[of a _ "1 / eval b (t, x)"]
          backward_scale[of b _ "- (eval a (t, x) / (eval b (t, x))\<^sup>2)"])
    apply (simp add: field_simps power2_eq_square)
    done
next
  case (Sub a b)
  then show ?case
    by (auto intro!: derivative_eq_intros simp: accumulate_def backward_scale[of b _ "- 1"])
next
  case (Pow2 a)
  then show ?case
    by (auto intro!: derivative_eq_intros simp: backward_scale[of a _ "2 * eval a (t, x)"])
next
  case (Tanh a)
  then show ?case
    by (auto intro!: derivative_eq_intros
        simp: backward_scale[of a _ "1 - (tanh (eval a (t, x)))\<^sup>2"])
qed (auto intro!: derivative_eq_intros simp: accumulate_def)

section \<open>The graph of the network and of the flux\<close>

lemma div_safe_dot:
  "div_safe acc p \<Longrightarrow> list_all (\<lambda>h. div_safe h p) hs \<Longrightarrow> div_safe (dot ws hs acc) p"
  by (induction ws hs acc rule: dot.induct) simp_all

lemma div_safe_Linear:
  "list_all (\<lambda>h. div_safe h p) hs \<Longrightarrow> list_all (\<lambda>h. div_safe h p) (Linear l hs)"
  by (auto simp: Linear_def list_all_iff intro!: div_safe_dot)

lemma div_safe_Sequential:
  "list_all (\<lambda>h. div_safe h p) hs \<Longrightarrow> list_all (\<lambda>h. div_safe h p) (Sequential ls hs)"
proof (induction ls arbitrary: hs)
  case Nil
  then show ?case by simp
next
  case (Cons l ls)
  have "list_all (\<lambda>h. div_safe h p) (map Tanh (Linear l hs))"
    using div_safe_Linear[OF Cons.prems, of l] by (simp add: list_all_iff)
  then show ?case by (simp add: Cons.IH)
qed

lemma div_safe_net: "div_safe (net self) p"
  unfolding net_def by (intro div_safe_dot div_safe_Sequential) simp_all

lemma flux_denominator_pos: "0 < 4 * u\<^sup>2 + (1 - u)\<^sup>2" for u :: real
proof (cases "u = 0")
  case True
  then show ?thesis by simp
next
  case False
  then have "0 < 4 * u\<^sup>2" by simp
  moreover have "0 \<le> (1 - u)\<^sup>2" by simp
  ultimately show ?thesis by linarith
qed

lemma eval_flux_graph: "eval (flux_graph u) p = flux (eval u p)"
  by (simp add: flux_graph_def flux_def)

lemma div_safe_flux_graph: "div_safe u p \<Longrightarrow> div_safe (flux_graph u) p"
  using flux_denominator_pos[of "eval u p"] by (simp add: flux_graph_def)

text \<open>
  Claim C5. For every real \<open>u\<close> the denominator \<open>4u\<^sup>2 + (1 - u)\<^sup>2\<close> of the flux is
  strictly positive. In the residual loss the division node of the flux graph has this
  denominator, with \<open>u\<close> the output of the network: for all parameters and every row,
  no division in the graph differentiated by \<^verbatim>\<open>loss_pde\<close> has denominator zero.
\<close>

theorem flux_division_safe:
  "0 < 4 * (u::real)\<^sup>2 + (1 - u)\<^sup>2 \<and>
   eval (Add (Mul (Const 4) (Pow2 (net self))) (Pow2 (Sub (Const 1) (net self)))) p > 0 \<and>
   flux_graph (net self) =
     Div (Pow2 (net self))
       (Add (Mul (Const 4) (Pow2 (net self))) (Pow2 (Sub (Const 1) (net self)))) \<and>
   div_safe (flux_graph (net self)) p"
  using flux_denominator_pos[of u] flux_denominator_pos[of "eval (net self) p"]
  by (simp add: div_safe_flux_graph div_safe_net) (simp add: flux_graph_def)

section \<open>The residual loss\<close>

lemma loss_pde_unfold:
  "loss_pde self x =
   mean (map (\<lambda>i. (map fst (gradients (net self) x) ! i +
                    map snd (gradients (flux_graph (net self)) x) ! i)\<^sup>2) [0..<length x])"
proof -
  have "map (\<lambda>(a, b). (a + b)\<^sup>2)
          (zip (map fst (gradients (net self) x)) (map snd (gradients (flux_graph (net self)) x))) =
        map (\<lambda>i. (map fst (gradients (net self) x) ! i +
                    map snd (gradients (flux_graph (net self)) x) ! i)\<^sup>2) [0..<length x]"
    by (rule nth_equalityI) (simp_all add: gradients_def)
  then show ?thesis by (simp add: loss_pde_def Let_def)
qed

text \<open>
  Claim C1. For every batch \<open>x\<close> of interior points and all parameters, \<^verbatim>\<open>loss_pde\<close>
  returns the mean over the batch of \<open>(u_t + F_x)\<^sup>2\<close>, that is the sum of these squares
  over the rows divided by the number of rows (the NaN of \<open>0 / 0\<close> on the empty batch),
  where at row \<open>i\<close> the number \<open>u_t ! i\<close> is the exact derivative in time of the network
  output and \<open>F_x ! i\<close> is the exact derivative in space of
  \<open>F = u\<^sup>2 / (4u\<^sup>2 + (1 - u)\<^sup>2)\<close> taken of the network output. Derivatives are unique,
  so the two columns are determined.
\<close>

theorem loss_pde_mean_squared_residual:
  "\<exists>u_t F_x. length u_t = length x \<and> length F_x = length x \<and>
     (\<forall>i<length x.
        ((\<lambda>s. eval (net self) (s, snd (x ! i))) has_real_derivative u_t ! i) (at (fst (x ! i))) \<and>
        ((\<lambda>s. flux (eval (net self) (fst (x ! i), s))) has_real_derivative F_x ! i)
          (at (snd (x ! i)))) \<and>
     loss_pde self x =
       (if x = [] then None
        else Some ((\<Sum>i\<leftarrow>[0..<length x]. (u_t ! i + F_x ! i)\<^sup>2) / real (length x)))"
proof (intro exI conjI allI impI)
  show "loss_pde self x =
        (if x = [] then None
         else Some ((\<Sum>i\<leftarrow>[0..<length x]. (map fst (gradients (net self) x) ! i +
                  map snd (gradients (flux_graph (net self)) x) ! i)\<^sup>2) / real (length x)))"
    unfolding loss_pde_unfold by (simp add: mean_def)
next
  fix i assume i: "i < length x"
  obtain t y where p: "x ! i = (t, y)" by (cases "x ! i")
  show "((\<lambda>s. eval (net self) (s, snd (x ! i))) has_real_derivative
         map fst (gradients (net self) x) ! i) (at (fst (x ! i)))"
    using backward_deriv_t[OF div_safe_net[of self "(t, y)"]] i by (simp add: gradients_def p)
  have "div_safe (flux_graph (net self)) (t, y)"
    by (rule div_safe_flux_graph) (rule div_safe_net)
  from backward_deriv_x[OF this]
  show "((\<lambda>s. flux (eval (net self) (fst (x ! i), s))) has_real_derivative
         map snd (gradients (flux_graph (net self)) x) ! i) (at (snd (x ! i)))"
    using i by (simp add: gradients_def p eval_flux_graph)
qed (simp_all add: gradients_def)

text \<open>
  The theorem at \<open>shifted_net\<close>, \<open>u = tanh (t + x) + 1/2\<close>, on \<open>shifted_batch\<close>: in both
  rows \<open>u = 1/2\<close>, \<open>u_t = 1\<close> and \<open>F_x = 8/25\<close>, so that each squared residual is
  \<open>(33/25)\<^sup>2\<close> and so is their mean.
\<close>

theorem loss_pde_mean_squared_residual_witness:
  "(\<exists>u_t F_x. length u_t = length shifted_batch \<and> length F_x = length shifted_batch \<and>
     (\<forall>i<length shifted_batch.
        ((\<lambda>s. eval (net shifted_net) (s, snd (shifted_batch ! i))) has_real_derivative u_t ! i)
          (at (fst (shifted_batch ! i))) \<and>
        ((\<lambda>s. flux (eval (net shifted_net) (fst (shifted_batch ! i), s)))
           has_real_derivative F_x ! i) (at (snd (shifted_batch ! i)))) \<and>
     loss_pde shifted_net shifted_batch =
       (if shifted_batch = [] then None
        else Some ((\<Sum>i\<leftarrow>[0..<length shifted_batch]. (u_t ! i + F_x ! i)\<^sup>2) /
                   real (length shifted_batch)))) \<and>
   length shifted_batch = 2 \<and>
   map fst (gradients (net shifted_net) shifted_batch) = [1, 1] \<and>
   map snd (gradients (flux_graph (net shifted_net)) shifted_batch) = [8 / 25, 8 / 25] \<and>
   loss_pde shifted_net shifted_batch = Some (1089 / 625)"
proof (intro conjI)
  show "loss_pde shifted_net shifted_batch = Some (1089 / 625)"
    by (simp add: shifted_net_def shifted_batch_def loss_pde_def gradients_def net_def
        flux_graph_def mean_def accumulate_def Linear_def power2_eq_square)
  show "length shifted_batch = 2"
    by (simp add: shifted_batch_def)
  show "map fst (gradients (net shifted_net) shifted_batch) = [1, 1]"
    by (simp add: shifted_net_def shifted_batch_def gradients_def net_def accumulate_def
        Linear_def)
  show "map snd (gradients (flux_graph (net shifted_net)) shifted_batch) = [8 / 25, 8 / 25]"
    by (simp add: shifted_net_def shifted_batch_def gradients_def net_def flux_graph_def
        accumulate_def Linear_def power2_eq_square)
qed (rule loss_pde_mean_squared_residual)

section \<open>The initial-condition loss over the reals\<close>

lemma loss_ic_unfold:
  assumes "length u_ic = length x_ic"
  shows "loss_ic self x_ic u_ic =
         Inr (mean (map (\<lambda>i. (eval (net self) (x_ic ! i) - u_ic ! i)\<^sup>2) [0..<length x_ic]))"
proof -
  have "map (\<lambda>v. v\<^sup>2) (map (\<lambda>(v, w). v - w) (zip (forward self x_ic) u_ic)) =
        map (\<lambda>i. (eval (net self) (x_ic ! i) - u_ic ! i)\<^sup>2) [0..<length x_ic]"
    using assms by (intro nth_equalityI) (simp_all add: forward_def)
  with assms show ?thesis
    by (simp add: loss_ic_def tensor_sub_def forward_def)
qed

section \<open>Rounding to single precision\<close>

lemma round_half_even_ge_floor: "\<lfloor>y\<rfloor> \<le> round_half_even y"
  by (simp add: round_half_even_def Let_def)

lemma round_half_even_of_int [simp]: "round_half_even (of_int n) = n"
  by (simp add: round_half_even_def Let_def)


lemma rn_0 [simp]: "rn 0 = Fin 0"
  by (simp add: rn_def)

lemma rn_not_NaN [simp]: "rn x \<noteq> NaN"
  by (simp add: rn_def Let_def)

lemma floor_log2_le: "0 < x \<Longrightarrow> 2 powi \<lfloor>log 2 x\<rfloor> \<le> x"
proof -
  assume x: "0 < x"
  have "2 powr real_of_int \<lfloor>log 2 x\<rfloor> \<le> x"
    using x floor_log_eq_powr_iff[of x 2 "\<lfloor>log 2 x\<rfloor>"] by simp
  then show ?thesis by (simp add: powr_real_of_int')
qed

lemma floor_log2_powi [simp]: "\<lfloor>log 2 (2 powi k)\<rfloor> = k"
proof -
  have "log 2 (2 powi k) = real_of_int k"
    using powr_real_of_int'[of 2 k] log_powr_cancel[of 2 "real_of_int k"] by simp
  then show ?thesis by simp
qed


text \<open>A positive number in the normal range is rounded to at least the power of two below it.\<close>

lemma rounded_ge_powi:
  assumes x: "0 < x" and e: "- 126 \<le> \<lfloor>log 2 x\<rfloor>"
  shows "(2::real) powi \<lfloor>log 2 x\<rfloor> \<le>
         of_int (round_half_even (x / 2 powi ulp_exponent x)) * 2 powi ulp_exponent x"
proof -
  let ?e = "\<lfloor>log 2 x\<rfloor>"
  let ?q = "(2::real) powi (?e - 23)"
  have u: "ulp_exponent x = ?e - 23" using x e by (simp add: ulp_exponent_def)
  have q: "0 < ?q" by simp
  have pe: "(2::real) powi ?e = 2 ^ 23 * ?q"
    using power_int_add[of "2::real" 23 "?e - 23"] by simp
  have "2 ^ 23 * ?q \<le> x" using floor_log2_le[OF x] pe by simp
  then have "(2::real) ^ 23 \<le> x / ?q" using q by (simp add: pos_le_divide_eq)
  then have "(2::int) ^ 23 \<le> \<lfloor>x / ?q\<rfloor>" by (simp add: le_floor_iff)
  with round_half_even_ge_floor[of "x / ?q"] have "(2::int) ^ 23 \<le> round_half_even (x / ?q)"
    by linarith
  then have "(2::real) ^ 23 \<le> of_int (round_half_even (x / ?q))"
    by (metis of_int_le_iff of_int_numeral of_int_power)
  then have "2 ^ 23 * ?q \<le> of_int (round_half_even (x / ?q)) * ?q"
    using q by (simp add: mult_right_mono)
  with pe u show ?thesis by simp
qed

lemma rn_nonneg: "0 \<le> x \<Longrightarrow> rn x = PInf \<or> (\<exists>v\<ge>0. rn x = Fin v)"
proof (cases "x = 0")
  case True
  then show ?thesis by simp
next
  case False
  assume "0 \<le> x"
  with False have x: "0 < x" by simp
  let ?q = "(2::real) powi ulp_exponent x"
  have "0 \<le> x / ?q" using x by simp
  then have "0 \<le> \<lfloor>x / ?q\<rfloor>" by simp
  with round_half_even_ge_floor[of "x / ?q"] have "0 \<le> round_half_even (x / ?q)" by linarith
  then have "(0::real) \<le> of_int (round_half_even (x / ?q)) * ?q" by simp
  with x show ?thesis by (auto simp: rn_def Let_def)
qed


lemma rn_overflow: "2 ^ 128 \<le> x \<Longrightarrow> rn x = PInf"
proof -
  assume big: "2 ^ 128 \<le> x"
  then have x: "0 < x" by (smt (verit) zero_less_power)
  have "(2::real) powi 128 \<le> x" using big by simp
  then have "log 2 (2 powi 128) \<le> log 2 x" using x by simp
  then have "128 \<le> log 2 x"
    using powr_real_of_int'[of 2 128] log_powr_cancel[of 2 128] by simp
  then have e: "128 \<le> \<lfloor>log 2 x\<rfloor>" by (simp add: le_floor_iff)
  then have "- 126 \<le> \<lfloor>log 2 x\<rfloor>" by simp
  from rounded_ge_powi[OF x this]
  have "(2::real) powi \<lfloor>log 2 x\<rfloor> \<le>
        of_int (round_half_even (x / 2 powi ulp_exponent x)) * 2 powi ulp_exponent x" .
  moreover have "(2::real) powi 128 \<le> 2 powi \<lfloor>log 2 x\<rfloor>"
    using e by (intro power_int_increasing) simp_all
  ultimately have "(2::real) ^ 128 \<le> of_int (round_half_even (x / 2 powi ulp_exponent x)) * 2 powi ulp_exponent x"
    by simp
  then have "(2::real) ^ 128 \<le> \<bar>of_int (round_half_even (x / 2 powi ulp_exponent x)) * 2 powi ulp_exponent x\<bar>"
    by linarith
  with x show ?thesis by (simp add: rn_def Let_def)
qed


lemma rn_powi: "- 126 \<le> k \<Longrightarrow> k \<le> 127 \<Longrightarrow> rn (2 powi k) = Fin (2 powi k)"
proof -
  assume k: "- 126 \<le> k" "k \<le> 127"
  have u: "ulp_exponent (2 powi k) = k - 23" using k by (simp add: ulp_exponent_def)
  have d: "(2::real) powi k / 2 powi (k - 23) = of_int (2 ^ 23)"
    using power_int_diff[of "2::real" k "k - 23"] by simp
  have v: "of_int (round_half_even ((2::real) powi k / 2 powi (k - 23))) * 2 powi (k - 23) = (2::real) powi k"
    unfolding d round_half_even_of_int using power_int_add[of "2::real" 23 "k - 23"] by simp
  have "(2::real) powi k < 2 powi 128"
    using k by (intro power_int_strict_increasing) simp_all
  then have "\<not> 2 ^ 128 \<le> \<bar>(2::real) powi k\<bar>" by simp
  then show ?thesis unfolding rn_def Let_def u v by simp
qed

section \<open>The losses in single precision\<close>

lemma nan_or_nonneg_sq32: "nan_or_nonneg (sq32 v)"
proof (cases v)
  case (Fin x)
  have "0 \<le> x * x" by simp
  from rn_nonneg[OF this] Fin show ?thesis
    by (auto simp: sq32_def nan_or_nonneg_def)
qed (simp_all add: sq32_def nan_or_nonneg_def)

lemma nan_or_nonneg_add32:
  assumes "nan_or_nonneg a" "nan_or_nonneg b"
  shows "nan_or_nonneg (add32 a b)"
proof (cases a; cases b)
  fix x y assume ab: "a = Fin x" "b = Fin y"
  with assms have "0 \<le> x + y" by (simp add: nan_or_nonneg_def)
  from rn_nonneg[OF this] ab show ?thesis by (auto simp: nan_or_nonneg_def)
qed (use assms in \<open>simp_all add: nan_or_nonneg_def\<close>)

lemma nan_or_nonneg_foldl:
  "nan_or_nonneg acc \<Longrightarrow> \<forall>v\<in>set vs. nan_or_nonneg v \<Longrightarrow> nan_or_nonneg (foldl add32 acc vs)"
  by (induction vs arbitrary: acc) (simp_all add: nan_or_nonneg_add32)

lemma nan_or_nonneg_div32_count:
  assumes "nan_or_nonneg s"
  shows "nan_or_nonneg (div32 s (rn (real n)))"
proof -
  have "0 \<le> real n" by simp
  from rn_nonneg[OF this] consider "rn (real n) = PInf" | c where "0 \<le> c" "rn (real n) = Fin c"
    by blast
  then show ?thesis
  proof cases
    case 1
    with assms show ?thesis by (cases s) (simp_all add: nan_or_nonneg_def)
  next
    case 2
    show ?thesis
    proof (cases s)
      case (Fin v)
      with assms have v: "0 \<le> v" by (simp add: nan_or_nonneg_def)
      with 2 have "0 \<le> v / c" by simp
      from rn_nonneg[OF this] Fin 2 v show ?thesis
        by (auto simp: nan_or_nonneg_def)
    qed (use assms 2 in \<open>simp_all add: nan_or_nonneg_def\<close>)
  qed
qed

lemma nan_or_nonneg_mean32_squares:
  "\<forall>v\<in>set vs. nan_or_nonneg v \<Longrightarrow> nan_or_nonneg (mean32 vs)"
  unfolding mean32_def
  by (intro nan_or_nonneg_div32_count nan_or_nonneg_foldl) (simp_all add: nan_or_nonneg_def)

lemma mean32_empty: "mean32 [] = NaN"
  by (simp add: mean32_def)

lemma nan_or_nonneg_loss_pde32: "nan_or_nonneg (loss_pde32 self x)"
  unfolding loss_pde32_def Let_def
  by (rule nan_or_nonneg_mean32_squares) (auto simp: nan_or_nonneg_sq32)

lemma nan_or_nonneg_loss_ic32: "loss_ic32 self x_ic u_ic = Inr r \<Longrightarrow> nan_or_nonneg r"
  unfolding loss_ic32_def Let_def
  by (auto split: sum.splits intro!: nan_or_nonneg_mean32_squares simp: nan_or_nonneg_sq32)

lemma add32_NaN_right [simp]: "add32 a NaN = NaN"
  by (cases a) simp_all

lemma mul32_NaN_right [simp]: "mul32 a NaN = NaN"
  by (cases a) simp_all

lemma div32_NaN_right [simp]: "div32 a NaN = NaN"
  by (cases a) simp_all






lemma rn_1 [simp]: "rn 1 = Fin 1"
  using rn_powi[of 0] by simp

lemma loss_ic32_single:
  "loss_ic32 (zero_weights32 b) [(0, 0)] [Fin 0] = Inr (div32 (add32 (Fin 0) (sq32 (rn b))) (Fin 1))"
  by (simp add: loss_ic32_def tensor_sub32_def zero_weights32_def sub32_def mean32_def)


lemma add32_PInf_nonneg: "nan_or_nonneg b \<Longrightarrow> b \<noteq> NaN \<Longrightarrow> add32 PInf b = PInf"
  by (cases b) (simp_all add: nan_or_nonneg_def)

lemma sub32_Fin_not_NaN: "sub32 (Fin a) (Fin b) \<noteq> NaN"
  by (simp add: sub32_def)

lemma sq32_not_NaN: "v \<noteq> NaN \<Longrightarrow> sq32 v \<noteq> NaN"
  by (cases v) (simp_all add: sq32_def)

lemma flux32_overflow:
  assumes "sq32 (Fin b) = PInf"
  shows "flux32 (Fin b) = NaN" and "flux_backward32 (Fin b) (Fin 1) = NaN"
proof -
  have "sq32 (sub32 (Fin 1) (Fin b)) \<noteq> NaN"
    by (intro sq32_not_NaN sub32_Fin_not_NaN)
  with nan_or_nonneg_sq32[of "sub32 (Fin 1) (Fin b)"]
  have d: "add32 PInf (sq32 (sub32 (Fin 1) (Fin b))) = PInf"
    by (rule add32_PInf_nonneg)
  show "flux32 (Fin b) = NaN"
    by (simp add: flux32_def assms d)
  show "flux_backward32 (Fin b) (Fin 1) = NaN"
    by (simp add: flux_backward32_def Let_def assms d)
qed

lemma loss_pde32_overflow:
  assumes "sq32 (Fin b) = PInf"
  shows "loss_pde32 (zero_weights32 b) [(0, 0)] = NaN"
  by (simp add: loss_pde32_def zero_weights32_def flux32_overflow(2)[OF assms] sq32_def mean32_def)




text \<open>
  Claim C7, as stated, fails in two ways. With all weights zero and final bias \<open>2\<^sup>7\<^sup>0\<close>
  the network output is finite, but its square overflows, the flux is infinity divided by
  infinity, and the residual loss is NaN on a batch of one row. And on the empty batch
  both losses are NaN.
\<close>

theorem losses32_nan:
  "output32 (zero_weights32 (2 ^ 70)) (0, 0) = Fin (2 ^ 70) \<and>
   flux32 (Fin (2 ^ 70)) = NaN \<and>
   loss_pde32 (zero_weights32 (2 ^ 70)) [(0, 0)] = NaN \<and>
   loss_pde32 (zero_weights32 0) [] = NaN \<and>
   loss_ic32 (zero_weights32 0) [] [] = Inr NaN"
proof -
  have "(2::real) ^ 128 \<le> 2 ^ 70 * 2 ^ 70" by simp
  from rn_overflow[OF this] have n: "sq32 (Fin (2 ^ 70)) = PInf"
    unfolding sq32_def mul32.simps .
  show ?thesis
  proof (intro conjI)
    show "flux32 (Fin (2 ^ 70)) = NaN" by (rule flux32_overflow(1)[OF n])
    show "loss_pde32 (zero_weights32 (2 ^ 70)) [(0, 0)] = NaN" by (rule loss_pde32_overflow[OF n])
    show "loss_pde32 (zero_weights32 0) [] = NaN"
      by (simp add: loss_pde32_def mean32_def)
    show "loss_ic32 (zero_weights32 0) [] [] = Inr NaN"
      by (simp add: loss_ic32_def tensor_sub32_def mean32_def)
  qed (simp add: zero_weights32_def)
qed

text \<open>
  Claim C7, amended. For every network, that is for arbitrary parameters, and arbitrary
  batches, the residual loss and the initial-condition loss are each either NaN or
  non-negative (a non-negative float or plus infinity); NaN is the result on an empty batch
  and can be the result after overflow.
\<close>

theorem losses32_nan_or_nonneg:
  "nan_or_nonneg (loss_pde32 self x) \<and>
   (\<forall>r. loss_ic32 self x_ic u_ic = Inr r \<longrightarrow> nan_or_nonneg r)"
  using nan_or_nonneg_loss_pde32 nan_or_nonneg_loss_ic32 by blast

theorem losses32_nan_or_nonneg_witness:
  "loss_ic32 (zero_weights32 1) [(0, 0)] [Fin 0] = Inr (Fin 1) \<and> nan_or_nonneg (Fin 1) \<and>
   nan_or_nonneg (loss_pde32 (zero_weights32 1) [(0, 0)])"
proof -
  have 1: "loss_ic32 (zero_weights32 1) [(0, 0)] [Fin 0] = Inr (Fin 1)"
    by (simp add: loss_ic32_single sq32_def)
  from losses32_nan_or_nonneg[of "zero_weights32 1" "[(0, 0)]" "[(0, 0)]" "[Fin 0]"] 1
  show ?thesis by simp
qed

section \<open>Conversion to arrays\<close>




section \<open>Flattening of the grid and sampling by index\<close>

lemma nth_concat_uniform:
  "\<forall>r\<in>set rows. length r = n \<Longrightarrow> k < length rows * n \<Longrightarrow>
   concat rows ! k = rows ! (k div n) ! (k mod n)"
proof (induction rows arbitrary: k)
  case Nil
  then show ?case by simp
next
  case (Cons r rows)
  have n: "length r = n" using Cons.prems(1) by simp
  show ?case
  proof (cases "k < n")
    case True
    then show ?thesis by (simp add: nth_append n)
  next
    case False
    then have kn: "n \<le> k" by simp
    from Cons.prems(2) have "0 < n" by (cases n) auto
    have "k - n < length rows * n" using Cons.prems(2) kn by simp
    with Cons have "concat rows ! (k - n) = rows ! ((k - n) div n) ! ((k - n) mod n)"
      by simp
    moreover have "k div n = Suc ((k - n) div n)" using kn \<open>0 < n\<close> by (simp add: le_div_geq)
    moreover have "k mod n = (k - n) mod n" using kn by (simp add: le_mod_geq)
    ultimately show ?thesis using False by (simp add: nth_append n)
  qed
qed

lemma length_concat_uniform:
  "\<forall>r\<in>set rows. length r = n \<Longrightarrow> length (concat rows) = length rows * n"
  by (induction rows) simp_all

lemma div_less_rows: "k < m * n \<Longrightarrow> k div n < m" for k m n :: nat
  by (simp add: less_mult_imp_div_less)

lemma flatten_t_grid:
  assumes "k < length x * length t"
  shows "flatten (fst (meshgrid t x)) ! k = t ! (k mod length t)"
proof -
  have "concat (map (\<lambda>x_i. t) x) ! k = map (\<lambda>x_i. t) x ! (k div length t) ! (k mod length t)"
    using assms by (intro nth_concat_uniform) auto
  with div_less_rows[OF assms] show ?thesis by (simp add: flatten_def meshgrid_def)
qed

lemma flatten_x_grid:
  assumes "k < length x * length t"
  shows "flatten (snd (meshgrid t x)) ! k = x ! (k div length t)"
proof -
  have t: "0 < length t" using assms by (cases t) auto
  have "concat (map (\<lambda>x_i. map (\<lambda>t_j. x_i) t) x) ! k =
        map (\<lambda>x_i. map (\<lambda>t_j. x_i) t) x ! (k div length t) ! (k mod length t)"
    using assms by (intro nth_concat_uniform) auto
  with div_less_rows[OF assms] t show ?thesis by (simp add: flatten_def meshgrid_def)
qed

lemma length_flatten_meshgrid:
  "length (flatten (fst (meshgrid t x))) = length x * length t"
  "length (flatten (snd (meshgrid t x))) = length x * length t"
  by (simp_all add: flatten_def meshgrid_def length_concat_uniform[where n = "length t"])

lemma traverse_Inr:
  "\<forall>a\<in>set as. f a = Inr (g a) \<Longrightarrow> traverse f as = Inr (map g as)"
  by (induction as) simp_all

lemma hstack_flat:
  "hstack (flatten (fst (meshgrid t x))) (flatten (snd (meshgrid t x))) =
   Inr (map (\<lambda>k. (t ! (k mod length t), x ! (k div length t))) [0..<length x * length t])"
proof -
  have "zip (flatten (fst (meshgrid t x))) (flatten (snd (meshgrid t x))) =
        map (\<lambda>k. (t ! (k mod length t), x ! (k div length t))) [0..<length x * length t]"
    by (rule nth_equalityI)
      (simp_all add: length_flatten_meshgrid flatten_t_grid flatten_x_grid)
  then show ?thesis by (simp add: hstack_def length_flatten_meshgrid)
qed

lemma take_ids_flat:
  assumes "\<forall>k\<in>set ids. k < length a"
  shows "take_ids a ids = Inr (map (\<lambda>k. a ! k) ids)"
  unfolding take_ids_def using assms by (intro traverse_Inr) simp

lemma take_ids_col0_x:
  assumes "\<forall>i\<in>set ids. i < length x" "t \<noteq> []"
  shows "take_ids_col0 (length t) (snd (meshgrid t x)) ids = Inr (map (\<lambda>i. x ! i) ids)"
proof -
  have "traverse (\<lambda>i. if i < length (snd (meshgrid t x)) then Inr (snd (meshgrid t x) ! i ! 0)
                       else Inl IndexError) ids = Inr (map (\<lambda>i. x ! i) ids)"
    using assms by (intro traverse_Inr) (auto simp: meshgrid_def)
  with assms show ?thesis by (simp add: take_ids_col0_def)
qed

lemma take_ids_col0_t:
  assumes "\<forall>i\<in>set ids. i < length x" "t \<noteq> []"
  shows "take_ids_col0 (length t) (fst (meshgrid t x)) ids = Inr (map (\<lambda>i. t ! 0) ids)"
proof -
  have "traverse (\<lambda>i. if i < length (fst (meshgrid t x)) then Inr (fst (meshgrid t x) ! i ! 0)
                       else Inl IndexError) ids = Inr (map (\<lambda>i. t ! 0) ids)"
    using assms by (intro traverse_Inr) (auto simp: meshgrid_def)
  with assms show ?thesis by (simp add: take_ids_col0_def)
qed

lemma sampling_eq:
  assumes ic: "\<forall>i\<in>set id_ic. i < length x"
    and f: "\<forall>k\<in>set id_f. k < length x * length t"
    and t: "t \<noteq> []"
  shows "sampling x t xs ts id_ic id_f =
     Inr \<lparr>x_ic_train = map (\<lambda>i. (t ! 0, x ! i)) id_ic,
          u_ic_train = map (\<lambda>i. if -0.5 \<le> x ! i \<and> x ! i \<le> 0 then 1 else 0) id_ic,
          x_int_train = map (\<lambda>k. (t ! (k mod length t), x ! (k div length t))) id_f,
          x_test = map (\<lambda>k. (ts ! (k mod length ts), xs ! (k div length ts)))
                     [0..<length xs * length ts]\<rparr>"
proof -
  have 1: "take_ids (flatten (snd (meshgrid t x))) id_f = Inr (map (\<lambda>k. x ! (k div length t)) id_f)"
    using f by (simp add: take_ids_flat length_flatten_meshgrid flatten_x_grid)
  have 2: "take_ids (flatten (fst (meshgrid t x))) id_f = Inr (map (\<lambda>k. t ! (k mod length t)) id_f)"
    using f by (simp add: take_ids_flat length_flatten_meshgrid flatten_t_grid)
  have 3: "hstack (map (\<lambda>i. t ! 0) id_ic) (map (\<lambda>i. x ! i) id_ic) =
           Inr (map (\<lambda>i. (t ! 0, x ! i)) id_ic)"
    by (simp add: hstack_def zip_map_map zip_same_conv_map)
  have 4: "hstack (map (\<lambda>k. t ! (k mod length t)) id_f) (map (\<lambda>k. x ! (k div length t)) id_f) =
           Inr (map (\<lambda>k. (t ! (k mod length t), x ! (k div length t))) id_f)"
    by (simp add: hstack_def zip_map_map zip_same_conv_map)
  show ?thesis
    unfolding sampling_def
    by (simp add: split_beta Let_def take_ids_col0_x[OF ic t] take_ids_col0_t[OF ic t] 1 2 3 4
        hstack_flat IC_eq_map o_def)
qed

text \<open>
  Claim C2. Flattening is row-major with \<open>x\<close> as the slow and \<open>t\<close> as the fast index:
  the flattened pair at index \<open>k\<close> is \<open>(t[k mod n_t], x[k div n_t])\<close>. Sampling by index
  keeps the cell: for indices \<open>id_f\<close> into the flattened grid and indices \<open>id_ic\<close> into
  the \<open>x\<close> axis, the interior rows are the pairs of the sampled cells, the IC rows are
  \<open>(t[0], x[i])\<close>, and the IC targets are the initial condition at the same \<open>x[i]\<close>.
\<close>

theorem flatten_row_major_sampling:
  assumes "\<forall>i\<in>set id_ic. i < length x"
    and "\<forall>k\<in>set id_f. k < length x * length t"
    and "t \<noteq> []"
  shows "(\<forall>k<length x * length t.
            flatten (fst (meshgrid t x)) ! k = t ! (k mod length t) \<and>
            flatten (snd (meshgrid t x)) ! k = x ! (k div length t)) \<and>
         (\<exists>d. sampling x t xs ts id_ic id_f = Inr d \<and>
            x_int_train d = map (\<lambda>k. (t ! (k mod length t), x ! (k div length t))) id_f \<and>
            x_ic_train d = map (\<lambda>i. (t ! 0, x ! i)) id_ic \<and>
            u_ic_train d = IC (map (\<lambda>i. x ! i) id_ic) \<and>
            u_ic_train d = map (\<lambda>i. if -0.5 \<le> x ! i \<and> x ! i \<le> 0 then 1 else 0) id_ic)"
  using assms by (simp add: flatten_t_grid flatten_x_grid sampling_eq IC_eq_map o_def)

theorem flatten_row_major_sampling_witness:
  "list_all (\<lambda>i. i < length [-1, -0.25, 0.5 :: real]) [2, 1] \<and>
   list_all (\<lambda>k. k < length [-1, -0.25, 0.5 :: real] * length [0, 1 :: real]) [5, 0, 3] \<and>
   [0, 1 :: real] \<noteq> [] \<and>
   (\<exists>d. sampling [-1, -0.25, 0.5] [0, 1] [-1, 1] [0, 1] [2, 1] [5, 0, 3] = Inr d \<and>
      x_int_train d = [(1, 0.5), (0, -1), (1, -0.25)] \<and>
      x_ic_train d = [(0, 0.5), (0, -0.25)] \<and>
      u_ic_train d = [0, 1])"
proof -
  have two: "Suc (Suc 0) = 2" by simp
  show ?thesis
    using flatten_row_major_sampling[of "[2, 1]" "[-1, -0.25, 0.5]" "[5, 0, 3]" "[0, 1]"
        "[-1, 1]" "[0, 1]"]
    by (simp add: two) blast
qed

section \<open>The training loop\<close>

subsection \<open>The graph of a derivative\<close>

lemma eval_derivative_t: "eval (derivative Col_t e) p = fst (backward e p 1)"
proof (induction e)
  case (Sub a b)
  then show ?case by (simp add: accumulate_def backward_scale[of b _ "- 1"])
next
  case (Mul a b)
  then show ?case
    by (simp add: accumulate_def backward_scale[of a _ "eval b p"]
        backward_scale[of b _ "eval a p"])
next
  case (Div a b)
  then show ?case
    by (simp add: accumulate_def backward_scale[of a _ "1 / eval b p"]
        backward_scale[of b _ "- (eval a p / (eval b p)\<^sup>2)"])
next
  case (Pow2 a)
  then show ?case by (simp add: backward_scale[of a _ "2 * eval a p"])
next
  case (Tanh a)
  then show ?case by (simp add: backward_scale[of a _ "1 - (tanh (eval a p))\<^sup>2"])
qed (simp_all add: accumulate_def)

lemma eval_derivative_x: "eval (derivative Col_x e) p = snd (backward e p 1)"
proof (induction e)
  case (Sub a b)
  then show ?case by (simp add: accumulate_def backward_scale[of b _ "- 1"])
next
  case (Mul a b)
  then show ?case
    by (simp add: accumulate_def backward_scale[of a _ "eval b p"]
        backward_scale[of b _ "eval a p"])
next
  case (Div a b)
  then show ?case
    by (simp add: accumulate_def backward_scale[of a _ "1 / eval b p"]
        backward_scale[of b _ "- (eval a p / (eval b p)\<^sup>2)"])
next
  case (Pow2 a)
  then show ?case by (simp add: backward_scale[of a _ "2 * eval a p"])
next
  case (Tanh a)
  then show ?case by (simp add: backward_scale[of a _ "1 - (tanh (eval a p))\<^sup>2"])
qed (simp_all add: accumulate_def)

lemma div_safe_derivative: "div_safe e p \<Longrightarrow> div_safe (derivative c e) p"
  by (induction e) simp_all

lemma div_safe_residual: "div_safe (residual self) p"
  by (simp add: residual_def Let_def div_safe_derivative div_safe_net div_safe_flux_graph)

text \<open>The residual loss is the mean of the squares of the residual node over the batch.\<close>

lemma loss_pde_residual:
  "loss_pde self x = mean (map (\<lambda>p. (eval (residual self) p)\<^sup>2) x)"
proof -
  have "map (\<lambda>(a, b). (a + b)\<^sup>2)
          (zip (map fst (gradients (net self) x)) (map snd (gradients (flux_graph (net self)) x))) =
        map (\<lambda>p. (eval (residual self) p)\<^sup>2) x"
    by (rule nth_equalityI)
      (simp_all add: gradients_def residual_def Let_def eval_derivative_t eval_derivative_x)
  then show ?thesis by (simp add: loss_pde_def Let_def)
qed

text \<open>
  Each row of \<open>x_int_gradient\<close> holds the two partial derivatives of that row's share
  \<open>0.1 / N * residual\<^sup>2\<close> of the back-propagated loss.
\<close>

lemma x_int_gradient_row:
  assumes "i < length x" and "x ! i = (t, y)"
  shows "((\<lambda>s. 0.1 / real (length x) * (eval (residual self) (s, y))\<^sup>2) has_real_derivative
            fst (x_int_gradient self x ! i)) (at t)"
    and "((\<lambda>s. 0.1 / real (length x) * (eval (residual self) (t, s))\<^sup>2) has_real_derivative
            snd (x_int_gradient self x ! i)) (at y)"
proof -
  let ?c = "0.1 / real (length x)"
  let ?sq = "Pow2 (residual self)"
  have d: "div_safe ?sq (t, y)" by (simp add: div_safe_residual)
  have row: "x_int_gradient self x ! i = backward ?sq (t, y) ?c"
    using assms by (simp add: x_int_gradient_def del: backward.simps)
  have scale: "backward ?sq (t, y) ?c =
        (?c * fst (backward ?sq (t, y) 1), ?c * snd (backward ?sq (t, y) 1))"
    by (rule backward_scale)
  have "((\<lambda>s. ?c * eval ?sq (s, y)) has_real_derivative ?c * fst (backward ?sq (t, y) 1)) (at t)"
    by (rule DERIV_cmult[OF backward_deriv_t[OF d]])
  then show "((\<lambda>s. ?c * (eval (residual self) (s, y))\<^sup>2) has_real_derivative
            fst (x_int_gradient self x ! i)) (at t)"
    by (simp only: row scale fst_conv eval.simps)
  have "((\<lambda>s. ?c * eval ?sq (t, s)) has_real_derivative ?c * snd (backward ?sq (t, y) 1)) (at y)"
    by (rule DERIV_cmult[OF backward_deriv_x[OF d]])
  then show "((\<lambda>s. ?c * (eval (residual self) (t, s))\<^sup>2) has_real_derivative
            snd (x_int_gradient self x ! i)) (at y)"
    by (simp only: row scale snd_conv eval.simps)
qed

subsection \<open>One epoch\<close>

lemma loss_ic_Inr:
  "length u_ic = length x_ic \<Longrightarrow> \<exists>l. loss_ic m x_ic u_ic = Inr l"
  by (simp add: loss_ic_unfold)

lemma objective_eq:
  "loss_ic m (x_ic_train d) (u_ic_train d) = Inr l_ic \<Longrightarrow>
   objective d m = total_loss (loss_pde m (x_int_train d)) l_ic"
  by (simp add: objective_def)

lemma closure_eq:
  assumes "loss_ic (model s) (x_ic_train (sampled s)) (u_ic_train (sampled s)) = Inr l_ic"
  shows "closure bw epoch s =
         Inr (total_loss (loss_pde (model s) (x_int_train (sampled s))) l_ic,
              s\<lparr>x_int_train_grad :=
                  accumulate_grad (x_int_train_grad s)
                    (x_int_gradient (model s) (x_int_train (sampled s))),
                param_grad := Some (bw (objective (sampled s)) (model s)),
                stdout := stdout s @
                  [Losses epoch (loss_pde (model s) (x_int_train (sampled s))) l_ic]\<rparr>)"
  using assms by (simp add: closure_def Let_def)

lemma train_Inr_iff:
  "train bw opt epoch s = Inr s' \<longleftrightarrow>
   (\<exists>l_ic. loss_ic (model s) (x_ic_train (sampled s)) (u_ic_train (sampled s)) = Inr l_ic \<and>
      s' = s\<lparr>x_int_train_grad :=
               accumulate_grad (x_int_train_grad s)
                 (x_int_gradient (model s) (x_int_train (sampled s))),
             model := snd (opt (optimizer s) (bw (objective (sampled s)) (model s)) (model s)),
             param_grad := Some (bw (objective (sampled s)) (model s)),
             optimizer := fst (opt (optimizer s) (bw (objective (sampled s)) (model s)) (model s)),
             stdout := stdout s @
               [Losses epoch (loss_pde (model s) (x_int_train (sampled s))) l_ic,
                Total epoch (total_loss (loss_pde (model s) (x_int_train (sampled s))) l_ic)]\<rparr>)"
  by (auto simp: train_def closure_def Let_def split_beta split: sum.splits)

lemma train_sampled: "train bw opt epoch s = Inr s' \<Longrightarrow> sampled s' = sampled s"
  by (auto simp: train_Inr_iff)

lemma train_frame:
  "train bw opt epoch s = Inr s' \<Longrightarrow>
   sampled s' = sampled s \<and>
   (optimizer s', model s') = opt (optimizer s) (bw (objective (sampled s)) (model s)) (model s) \<and>
   param_grad s' = Some (bw (objective (sampled s)) (model s)) \<and>
   x_int_train_grad s' =
     accumulate_grad (x_int_train_grad s) (x_int_gradient (model s) (x_int_train (sampled s))) \<and>
   (\<exists>l_ic. loss_ic (model s) (x_ic_train (sampled s)) (u_ic_train (sampled s)) = Inr l_ic \<and>
      stdout s' = stdout s @
        [Losses epoch (loss_pde (model s) (x_int_train (sampled s))) l_ic,
         Total epoch (total_loss (loss_pde (model s) (x_int_train (sampled s))) l_ic)]) \<and>
   s' = s\<lparr>x_int_train_grad := x_int_train_grad s', model := model s',
          param_grad := param_grad s', optimizer := optimizer s', stdout := stdout s'\<rparr>"
  by (auto simp: train_Inr_iff)

subsection \<open>The loop\<close>

lemma for_epochs_append:
  "for_epochs bw opt (es @ fs) s =
   (case for_epochs bw opt es s of Inl e \<Rightarrow> Inl e | Inr s1 \<Rightarrow> for_epochs bw opt fs s1)"
  by (induction es arbitrary: s) (simp_all split: sum.splits)

lemma for_epochs_sampled:
  "for_epochs bw opt es s = Inr s' \<Longrightarrow> sampled s' = sampled s"
proof (induction es arbitrary: s)
  case Nil
  then show ?case by simp
next
  case (Cons e es)
  then show ?case by (auto split: sum.splits dest: train_sampled)
qed

lemma for_epochs_prefix:
  "for_epochs bw opt (es @ fs) s = Inr s' \<Longrightarrow> \<exists>s1. for_epochs bw opt es s = Inr s1"
  by (simp add: for_epochs_append split: sum.splits)

text \<open>
  With one target per IC point no epoch raises, whatever back-propagation writes and the
  optimizer does.
\<close>

lemma for_epochs_runs:
  assumes "length (u_ic_train (sampled s)) = length (x_ic_train (sampled s))"
  shows "\<exists>s'. for_epochs bw opt es s = Inr s' \<and> sampled s' = sampled s \<and>
           map epoch_of (stdout s') = map epoch_of (stdout s) @ concat (map (\<lambda>e. [e, e]) es)"
  using assms
proof (induction es arbitrary: s)
  case Nil
  then show ?case by simp
next
  case (Cons e es)
  from loss_ic_Inr[OF Cons.prems] obtain l_ic where
    "loss_ic (model s) (x_ic_train (sampled s)) (u_ic_train (sampled s)) = Inr l_ic" by blast
  then obtain s1 where s1: "train bw opt e s = Inr s1" "sampled s1 = sampled s"
    "stdout s1 = stdout s @ [Losses e (loss_pde (model s) (x_int_train (sampled s))) l_ic,
       Total e (total_loss (loss_pde (model s) (x_int_train (sampled s))) l_ic)]"
    by (auto simp: train_Inr_iff)
  from Cons.IH[of s1] Cons.prems s1(2) obtain s' where
    "for_epochs bw opt es s1 = Inr s'" "sampled s' = sampled s1"
    "map epoch_of (stdout s') = map epoch_of (stdout s1) @ concat (map (\<lambda>e. [e, e]) es)"
    by auto
  with s1 show ?case by simp
qed

lemma train_counted:
  "train bw (counted opt) epoch s = Inr s' \<Longrightarrow> fst (optimizer s') = Suc (fst (optimizer s))"
  by (auto simp: train_Inr_iff counted_def split_beta)

lemma for_epochs_counted:
  "for_epochs bw (counted opt) es s = Inr s' \<Longrightarrow>
   fst (optimizer s') = fst (optimizer s) + length es"
proof (induction es arbitrary: s)
  case Nil
  then show ?case by simp
next
  case (Cons e es)
  then show ?case by (auto split: sum.splits dest!: train_counted)
qed

lemma length_linspace: "length (linspace a b n) = n"
  by (simp add: linspace_def)

lemma length_traverse: "traverse f as = Inr bs \<Longrightarrow> length bs = length as"
  by (induction as arbitrary: bs) (auto split: sum.splits)

lemma length_take_ids_col0: "take_ids_col0 n g ids = Inr r \<Longrightarrow> length r = length ids"
  by (auto simp: take_ids_col0_def split: if_splits dest: length_traverse)

lemma sampling_lengths:
  assumes "sampling x t xs ts id_ic id_f = Inr d"
  shows "length (u_ic_train d) = length (x_ic_train d)"
  using assms
  by (auto simp: sampling_def Let_def split_beta hstack_def IC_eq_map
      split: sum.splits if_splits dest!: length_take_ids_col0)

lemma main_runs:
  assumes "\<forall>i\<in>set id_ic. i < num_x" and "\<forall>k\<in>set id_f. k < num_x * num_t"
  shows "\<exists>d s. sampling (linspace (-2.625) 2.5 num_x) (linspace 0 1.5 num_t)
                 (linspace (-1) 1 num_x) (linspace 0 1.5 num_t) id_ic id_f = Inr d \<and>
           for_epochs bw opt [1..<epochs + 1]
             \<lparr>sampled = d, x_int_train_grad = None, model = m0, param_grad = None,
              optimizer = o0, stdout = []\<rparr> = Inr s \<and>
           main bw opt o0 m0 id_ic id_f = Inr (s, forward (model s) (x_test d))"
proof -
  have t: "linspace 0 1.5 num_t \<noteq> []"
    by (simp add: linspace_def num_t_def)
  from sampling_eq[of id_ic "linspace (-2.625) 2.5 num_x" id_f "linspace 0 1.5 num_t"
      "linspace (-1) 1 num_x" "linspace 0 1.5 num_t", OF _ _ t] assms
  obtain d where d: "sampling (linspace (-2.625) 2.5 num_x) (linspace 0 1.5 num_t)
                 (linspace (-1) 1 num_x) (linspace 0 1.5 num_t) id_ic id_f = Inr d"
    by (auto simp: length_linspace)
  let ?s0 = "\<lparr>sampled = d, x_int_train_grad = None, model = m0, param_grad = None,
              optimizer = o0, stdout = []\<rparr>"
  have "length (u_ic_train (sampled ?s0)) = length (x_ic_train (sampled ?s0))"
    using sampling_lengths[OF d] by simp
  from for_epochs_runs[OF this, of bw opt "[1..<epochs + 1]"] obtain s where
    s: "for_epochs bw opt [1..<epochs + 1] ?s0 = Inr s" "sampled s = d" by auto
  have "main bw opt o0 m0 id_ic id_f = Inr (s, forward (model s) (x_test d))"
    using d s by (simp add: main_def to_numpy_def numpy_def cpu_def detach_def)
  with d s show ?thesis by blast
qed

lemma length_concat_pairs: "length (concat (map (\<lambda>e. [e, e]) es)) = 2 * length es"
  by (induction es) simp_all

lemma upt_split: "n \<le> k \<Longrightarrow> [1..<k + 1] = [1..<n + 1] @ [n + 1..<k + 1]" for n k :: nat
  using upt_add_eq_append[of 1 "n + 1" "k - n"] by simp

subsection \<open>The small instances\<close>

lemma example_losses:
  "loss_pde example_net example_batch = Some 1"
  "loss_ic example_net example_batch [1, 0] = Inr (Some (1 / 2))"
  by (simp_all add: example_net_def example_batch_def loss_pde_def gradients_def net_def
      flux_graph_def mean_def accumulate_def Linear_def loss_ic_def forward_def tensor_sub_def)

lemma example_gradient:
  "x_int_gradient example_net example_batch = [(0, 0), (0, 0)]"
  by (simp add: x_int_gradient_def residual_def example_net_def example_batch_def net_def
      flux_graph_def accumulate_def Linear_def Let_def)

lemma shifted_gradient:
  "x_int_gradient shifted_net shifted_batch =
   [(- (3168 / 15625), - (3168 / 15625)), (- (3168 / 15625), - (3168 / 15625))]"
  by (simp add: x_int_gradient_def residual_def shifted_net_def shifted_batch_def net_def
      flux_graph_def accumulate_def Linear_def Let_def power2_eq_square)

lemma example_train:
  "train unit_backward keep_parameters epoch
     (example_state\<lparr>x_int_train_grad := buffer, param_grad := pg, stdout := out\<rparr>) =
   Inr (example_state\<lparr>x_int_train_grad := accumulate_grad buffer [(0, 0), (0, 0)],
                       param_grad := Some (),
                       stdout := out @ [Losses epoch (Some 1) (Some (1 / 2)),
                                        Total epoch (Some (51 / 10))]\<rparr>)"
  by (simp add: train_def closure_def example_state_def example_losses example_gradient
      total_loss_def keep_parameters_def unit_backward_def)

lemma example_run:
  "for_epochs unit_backward keep_parameters [1..<2 + 1] example_state =
   Inr (example_state\<lparr>x_int_train_grad := Some [(0, 0), (0, 0)], param_grad := Some (),
          stdout := [Losses 1 (Some 1) (Some (1 / 2)), Total 1 (Some (51 / 10)),
                     Losses 2 (Some 1) (Some (1 / 2)), Total 2 (Some (51 / 10))]\<rparr>)"
proof -
  have 0: "example_state =
           example_state\<lparr>x_int_train_grad := None, param_grad := None, stdout := []\<rparr>"
    by (simp add: example_state_def)
  have "[1..<2 + 1] = [1, 2::nat]" by (simp add: upt_rec)
  then show ?thesis
    by (subst 0) (simp add: example_train accumulate_grad_def accumulate_def del: upt_Suc)
qed

lemma shifted_losses:
  "loss_pde shifted_net shifted_batch = Some (1089 / 625)"
  "loss_ic shifted_net shifted_batch [1, 0] = Inr (Some (1 / 4))"
  by (simp_all add: shifted_net_def shifted_batch_def loss_pde_def gradients_def net_def
      flux_graph_def mean_def accumulate_def Linear_def loss_ic_def forward_def tensor_sub_def
      power2_eq_square)

text \<open>
  Claim C4. In every epoch of a training run the scalar that the closure computes, returns
  to the optimizer step and back-propagates is \<open>0.1 * loss_pde + 10 * loss_ic\<close>, the two
  losses taken on the sampled batches at the parameters the epoch starts with. What is
  back-propagated is the function \<open>objective\<close> of the parameters, with the same two weights
  and the same sampled batches in every epoch; the optimizer step receives the gradient
  buffers that this back-propagation has filled, and the line printed after the step shows
  the same scalar.
\<close>

theorem weighted_loss_every_epoch:
  assumes run: "for_epochs bw opt [1..<n + 1] s0 = Inr s'" and epoch: "1 \<le> epoch" "epoch \<le> n"
  shows "\<exists>s l_ic s_c.
           for_epochs bw opt [1..<epoch] s0 = Inr s \<and> sampled s = sampled s0 \<and>
           loss_ic (model s) (x_ic_train (sampled s0)) (u_ic_train (sampled s0)) = Inr l_ic \<and>
           closure bw epoch s =
             Inr (total_loss (loss_pde (model s) (x_int_train (sampled s0))) l_ic, s_c) \<and>
           param_grad s_c = Some (bw (objective (sampled s0)) (model s)) \<and>
           stdout s_c =
             stdout s @ [Losses epoch (loss_pde (model s) (x_int_train (sampled s0))) l_ic] \<and>
           objective (sampled s0) (model s) =
             total_loss (loss_pde (model s) (x_int_train (sampled s0))) l_ic \<and>
           for_epochs bw opt [1..<epoch + 1] s0 =
             Inr (s_c\<lparr>model := snd (opt (optimizer s)
                                      (bw (objective (sampled s0)) (model s)) (model s)),
                      optimizer := fst (opt (optimizer s)
                                      (bw (objective (sampled s0)) (model s)) (model s)),
                      stdout := stdout s @
                        [Losses epoch (loss_pde (model s) (x_int_train (sampled s0))) l_ic,
                         Total epoch
                           (total_loss (loss_pde (model s) (x_int_train (sampled s0))) l_ic)]\<rparr>) \<and>
           (\<forall>m l. loss_ic m (x_ic_train (sampled s0)) (u_ic_train (sampled s0)) = Inr l \<longrightarrow>
              objective (sampled s0) m = total_loss (loss_pde m (x_int_train (sampled s0))) l) \<and>
           (\<forall>a b. total_loss (Some a) (Some b) = Some (0.1 * a + 10 * b))"
proof -
  have split: "[1..<n + 1] = [1..<epoch] @ epoch # [epoch + 1..<n + 1]"
    using epoch upt_split[of "epoch - 1" n] by (simp add: upt_conv_Cons)
  from run obtain s s1 where s: "for_epochs bw opt [1..<epoch] s0 = Inr s"
    and s1: "train bw opt epoch s = Inr s1"
    unfolding split by (auto simp: for_epochs_append split: sum.splits)
  have d: "sampled s = sampled s0" by (rule for_epochs_sampled[OF s])
  let ?g = "bw (objective (sampled s0)) (model s)"
  let ?l_pde = "loss_pde (model s) (x_int_train (sampled s0))"
  from s1 obtain l_ic where
    l: "loss_ic (model s) (x_ic_train (sampled s0)) (u_ic_train (sampled s0)) = Inr l_ic"
    and s1': "s1 = s\<lparr>x_int_train_grad :=
                      accumulate_grad (x_int_train_grad s)
                        (x_int_gradient (model s) (x_int_train (sampled s0))),
                    model := snd (opt (optimizer s) ?g (model s)),
                    param_grad := Some ?g,
                    optimizer := fst (opt (optimizer s) ?g (model s)),
                    stdout := stdout s @
                      [Losses epoch ?l_pde l_ic, Total epoch (total_loss ?l_pde l_ic)]\<rparr>"
    by (auto simp: train_Inr_iff d)
  define s_c where "s_c = s\<lparr>x_int_train_grad :=
                      accumulate_grad (x_int_train_grad s)
                        (x_int_gradient (model s) (x_int_train (sampled s0))),
                    param_grad := Some ?g,
                    stdout := stdout s @ [Losses epoch ?l_pde l_ic]\<rparr>"
  have c: "closure bw epoch s = Inr (total_loss ?l_pde l_ic, s_c)"
    using closure_eq[of s l_ic bw epoch] l by (simp add: d s_c_def)
  have pg: "param_grad s_c = Some ?g"
    and out: "stdout s_c = stdout s @ [Losses epoch ?l_pde l_ic]"
    by (simp_all add: s_c_def)
  have "[1..<epoch + 1] = [1..<epoch] @ [epoch]" using epoch by simp
  then have "for_epochs bw opt [1..<epoch + 1] s0 = Inr s1"
    using s s1 by (simp add: for_epochs_append)
  then have step: "for_epochs bw opt [1..<epoch + 1] s0 =
             Inr (s_c\<lparr>model := snd (opt (optimizer s) ?g (model s)),
                      optimizer := fst (opt (optimizer s) ?g (model s)),
                      stdout := stdout s @
                        [Losses epoch ?l_pde l_ic, Total epoch (total_loss ?l_pde l_ic)]\<rparr>)"
    by (simp add: s1' s_c_def)
  have same: "\<forall>m l. loss_ic m (x_ic_train (sampled s0)) (u_ic_train (sampled s0)) = Inr l \<longrightarrow>
              objective (sampled s0) m = total_loss (loss_pde m (x_int_train (sampled s0))) l"
    by (simp add: objective_eq)
  have w: "\<forall>a b. total_loss (Some a) (Some b) = Some (0.1 * a + 10 * b)"
    by (simp add: total_loss_def)
  from s d l c pg out objective_eq[OF l] step same w show ?thesis
    by blast
qed

theorem weighted_loss_every_epoch_witness:
  "for_epochs unit_backward keep_parameters [1..<2 + 1] example_state =
     Inr (example_state\<lparr>x_int_train_grad := Some [(0, 0), (0, 0)], param_grad := Some (),
            stdout := [Losses 1 (Some 1) (Some (1 / 2)), Total 1 (Some (51 / 10)),
                       Losses 2 (Some 1) (Some (1 / 2)), Total 2 (Some (51 / 10))]\<rparr>) \<and>
   (1::nat) \<le> 2 \<and> (2::nat) \<le> 2 \<and>
   (\<exists>s l_ic s_c. for_epochs unit_backward keep_parameters [1..<2] example_state = Inr s \<and>
      loss_ic (model s) (x_ic_train (sampled example_state)) (u_ic_train (sampled example_state)) =
        Inr l_ic \<and>
      closure unit_backward 2 s =
        Inr (total_loss (loss_pde (model s) (x_int_train (sampled example_state))) l_ic, s_c) \<and>
      objective (sampled example_state) (model s) =
        total_loss (loss_pde (model s) (x_int_train (sampled example_state))) l_ic \<and>
      total_loss (Some 1) (Some (1 / 2)) = Some (0.1 * 1 + 10 * (1 / 2)))"
proof -
  have e: "(1::nat) \<le> 2" "(2::nat) \<le> 2" by simp_all
  from weighted_loss_every_epoch[OF example_run e]
  have "\<exists>s l_ic s_c. for_epochs unit_backward keep_parameters [1..<2] example_state = Inr s \<and>
      loss_ic (model s) (x_ic_train (sampled example_state)) (u_ic_train (sampled example_state)) =
        Inr l_ic \<and>
      closure unit_backward 2 s =
        Inr (total_loss (loss_pde (model s) (x_int_train (sampled example_state))) l_ic, s_c) \<and>
      objective (sampled example_state) (model s) =
        total_loss (loss_pde (model s) (x_int_train (sampled example_state))) l_ic \<and>
      total_loss (Some 1) (Some (1 / 2)) = Some (0.1 * 1 + 10 * (1 / 2))"
    by blast
  with example_run e show ?thesis by blast
qed

text \<open>
  Claim C8. For index draws inside the grid, \<^verbatim>\<open>main\<close> returns after exactly \<open>epochs\<close>
  \<open>= 49911\<close> iterations of the training loop, for every optimizer, whatever
  back-propagation writes, and for all initial parameters: the epochs printed are
  \<open>1, ..., epochs\<close> in increasing order (two lines each), and an optimizer that counts
  its steps has counted \<open>epochs\<close> of them. No loss value ends the loop early.
\<close>

theorem training_runs_exactly_epochs:
  assumes "\<forall>i\<in>set id_ic. i < num_x" and "\<forall>k\<in>set id_f. k < num_x * num_t"
  shows "epochs = 49911 \<and>
         (\<exists>s u. main bw opt o0 m0 id_ic id_f = Inr (s, u) \<and>
            map epoch_of (stdout s) = concat (map (\<lambda>e. [e, e]) [1..<epochs + 1]) \<and>
            length (stdout s) = 2 * epochs) \<and>
         (\<exists>s u. main bw (counted opt) (0, o0) m0 id_ic id_f = Inr (s, u) \<and>
            fst (optimizer s) = epochs)"
proof (intro conjI)
  show "epochs = 49911" by (simp add: epochs_def)
next
  let ?s0 = "\<lambda>d. \<lparr>sampled = d, x_int_train_grad = None, model = m0, param_grad = None,
                  optimizer = o0, stdout = []\<rparr>"
  from main_runs[OF assms, of bw opt m0 o0] obtain d s where
    d: "sampling (linspace (-2.625) 2.5 num_x) (linspace 0 1.5 num_t)
          (linspace (-1) 1 num_x) (linspace 0 1.5 num_t) id_ic id_f = Inr d"
    and s: "for_epochs bw opt [1..<epochs + 1] (?s0 d) = Inr s"
    and m: "main bw opt o0 m0 id_ic id_f = Inr (s, forward (model s) (x_test d))"
    by blast
  have "length (u_ic_train (sampled (?s0 d))) = length (x_ic_train (sampled (?s0 d)))"
    using sampling_lengths[OF d] by simp
  from for_epochs_runs[OF this, of bw opt "[1..<epochs + 1]"] s
  have e: "map epoch_of (stdout s) = concat (map (\<lambda>e. [e, e]) [1..<epochs + 1])"
    by simp
  have "length (stdout s) = length (map epoch_of (stdout s))" by simp
  also have "\<dots> = 2 * length [1..<epochs + 1]"
    unfolding e by (rule length_concat_pairs)
  finally have "length (stdout s) = 2 * epochs" by simp
  with m e show "\<exists>s u. main bw opt o0 m0 id_ic id_f = Inr (s, u) \<and>
            map epoch_of (stdout s) = concat (map (\<lambda>e. [e, e]) [1..<epochs + 1]) \<and>
            length (stdout s) = 2 * epochs"
    by blast
next
  from main_runs[OF assms, of bw "counted opt" m0 "(0, o0)"] obtain d s where
    s: "for_epochs bw (counted opt) [1..<epochs + 1]
              \<lparr>sampled = d, x_int_train_grad = None, model = m0, param_grad = None,
               optimizer = (0, o0), stdout = []\<rparr> = Inr s"
    and m: "main bw (counted opt) (0, o0) m0 id_ic id_f = Inr (s, forward (model s) (x_test d))"
    by blast
  from for_epochs_counted[OF s] have "fst (optimizer s) = epochs" by simp
  with m show "\<exists>s u. main bw (counted opt) (0, o0) m0 id_ic id_f = Inr (s, u) \<and>
            fst (optimizer s) = epochs"
    by blast
qed

theorem training_runs_exactly_epochs_witness:
  "list_all (\<lambda>i. i < num_x) [0, 999] \<and> list_all (\<lambda>k. k < num_x * num_t) [0, 999999] \<and>
   epochs = 49911 \<and>
   (\<exists>s u. main unit_backward keep_parameters () zero_net [0, 999] [0, 999999] = Inr (s, u) \<and>
      length (stdout s) = 2 * epochs) \<and>
   (\<exists>s u. main unit_backward (counted keep_parameters) (0, ()) zero_net [0, 999] [0, 999999] =
             Inr (s, u) \<and>
      fst (optimizer s) = epochs)"
proof -
  have 1: "\<forall>i\<in>set [0, 999]. i < num_x" and 2: "\<forall>k\<in>set [0, 999999]. k < num_x * num_t"
    by (simp_all add: num_x_def num_t_def)
  from training_runs_exactly_epochs[OF 1 2, of unit_backward keep_parameters "()" zero_net]
  have "epochs = 49911 \<and>
   (\<exists>s u. main unit_backward keep_parameters () zero_net [0, 999] [0, 999999] = Inr (s, u) \<and>
      length (stdout s) = 2 * epochs) \<and>
   (\<exists>s u. main unit_backward (counted keep_parameters) (0, ()) zero_net [0, 999] [0, 999999] =
             Inr (s, u) \<and>
      fst (optimizer s) = epochs)"
    by blast
  moreover have "list_all (\<lambda>i. i < num_x) [0, 999]" "list_all (\<lambda>k. k < num_x * num_t) [0, 999999]"
    by (simp_all add: num_x_def num_t_def)
  ultimately show ?thesis by blast
qed

text \<open>
  Claim C9, as stated, fails in its last part: an epoch does not mutate the parameters
  only. The interior batch is a leaf that requires grad, and \<^verbatim>\<open>loss.backward()\<close> writes
  the gradient of the loss into its \<^verbatim>\<open>.grad\<close>, which is empty before the first epoch;
  the same call fills the \<^verbatim>\<open>.grad\<close> buffers of the parameters. On \<open>shifted_state\<close>,
  whatever the optimizer step does, the first epoch leaves the gradient
  \<open>-3168/15625\<close> in both columns of both rows of the interior batch.
\<close>

theorem epoch_writes_gradient_buffers:
  "x_int_train_grad shifted_state = None \<and> param_grad shifted_state = None \<and>
   (\<forall>opt. \<exists>s. train unit_backward opt 1 shifted_state = Inr s \<and>
      sampled s = sampled shifted_state \<and>
      x_int_train_grad s =
        Some [(- (3168 / 15625), - (3168 / 15625)), (- (3168 / 15625), - (3168 / 15625))] \<and>
      x_int_train_grad s \<noteq> x_int_train_grad shifted_state \<and>
      param_grad s = Some ())"
proof (intro conjI allI)
  fix opt :: "(unit, unit) optimizer_step"
  have l: "loss_ic (model shifted_state) (x_ic_train (sampled shifted_state))
             (u_ic_train (sampled shifted_state)) = Inr (Some (1 / 4))"
    by (simp add: shifted_state_def shifted_losses)
  have g: "x_int_gradient (model shifted_state) (x_int_train (sampled shifted_state)) =
           [(- (3168 / 15625), - (3168 / 15625)), (- (3168 / 15625), - (3168 / 15625))]"
    by (simp add: shifted_state_def shifted_gradient)
  have n: "x_int_train_grad shifted_state = None" by (simp add: shifted_state_def)
  from l obtain s where s: "train unit_backward opt 1 shifted_state = Inr s"
    by (auto simp: train_Inr_iff)
  from train_frame[OF s] have "sampled s = sampled shifted_state"
    and "x_int_train_grad s =
        Some [(- (3168 / 15625), - (3168 / 15625)), (- (3168 / 15625), - (3168 / 15625))]"
    and "param_grad s = Some ()"
    by (simp_all add: g n accumulate_grad_def)
  with s n show "\<exists>s. train unit_backward opt 1 shifted_state = Inr s \<and>
      sampled s = sampled shifted_state \<and>
      x_int_train_grad s =
        Some [(- (3168 / 15625), - (3168 / 15625)), (- (3168 / 15625), - (3168 / 15625))] \<and>
      x_int_train_grad s \<noteq> x_int_train_grad shifted_state \<and>
      param_grad s = Some ()"
    by simp
qed (simp_all add: shifted_state_def)

text \<open>
  Claim C9, amended. When \<^verbatim>\<open>main\<close> returns, the sampled tensors in the final state are
  the result of the one call of the sampling code before the loop, and their values are the
  same after every number of epochs. An epoch changes the state in the parameters of the
  network and the state of the optimizer, both being what the one optimizer step of the
  epoch returns on the gradient buffers of the parameters; in these buffers, which hold
  what back-propagation of the loss has written; in the \<^verbatim>\<open>.grad\<close> of the interior batch,
  to which the gradient of the loss with respect to the batch is added; and in the printed
  output, which grows by the two lines of the epoch. It changes nothing else.
\<close>

theorem sampled_once_and_epoch_frame:
  assumes "main bw opt o0 m0 id_ic id_f = Inr (s, u)"
  shows "\<exists>d. sampling (linspace (-2.625) 2.5 num_x) (linspace 0 1.5 num_t)
                (linspace (-1) 1 num_x) (linspace 0 1.5 num_t) id_ic id_f = Inr d \<and>
           sampled s = d \<and>
           (\<forall>n\<le>epochs. \<exists>s_n.
              for_epochs bw opt [1..<n + 1]
                \<lparr>sampled = d, x_int_train_grad = None, model = m0, param_grad = None,
                 optimizer = o0, stdout = []\<rparr> = Inr s_n \<and> sampled s_n = d) \<and>
           (\<forall>epoch s1 s2. train bw opt epoch s1 = Inr s2 \<longrightarrow>
              sampled s2 = sampled s1 \<and>
              (optimizer s2, model s2) =
                opt (optimizer s1) (bw (objective (sampled s1)) (model s1)) (model s1) \<and>
              param_grad s2 = Some (bw (objective (sampled s1)) (model s1)) \<and>
              x_int_train_grad s2 =
                accumulate_grad (x_int_train_grad s1)
                  (x_int_gradient (model s1) (x_int_train (sampled s1))) \<and>
              (\<exists>l_ic. loss_ic (model s1) (x_ic_train (sampled s1)) (u_ic_train (sampled s1)) =
                        Inr l_ic \<and>
                 stdout s2 = stdout s1 @
                   [Losses epoch (loss_pde (model s1) (x_int_train (sampled s1))) l_ic,
                    Total epoch
                      (total_loss (loss_pde (model s1) (x_int_train (sampled s1))) l_ic)]) \<and>
              s2 = s1\<lparr>x_int_train_grad := x_int_train_grad s2, model := model s2,
                      param_grad := param_grad s2, optimizer := optimizer s2,
                      stdout := stdout s2\<rparr>)"
proof -
  let ?s0 = "\<lambda>d. \<lparr>sampled = d, x_int_train_grad = None, model = m0, param_grad = None,
                  optimizer = o0, stdout = []\<rparr>"
  from assms obtain d where
    d: "sampling (linspace (-2.625) 2.5 num_x) (linspace 0 1.5 num_t)
          (linspace (-1) 1 num_x) (linspace 0 1.5 num_t) id_ic id_f = Inr d"
    and s: "for_epochs bw opt [1..<epochs + 1] (?s0 d) = Inr s"
    by (auto simp: main_def split: sum.splits)
  have fin: "sampled s = d" using for_epochs_sampled[OF s] by simp
  have mid: "\<exists>s_n. for_epochs bw opt [1..<n + 1] (?s0 d) = Inr s_n \<and> sampled s_n = d"
    if "n \<le> epochs" for n
  proof -
    from s upt_split[OF that]
    have "for_epochs bw opt ([1..<n + 1] @ [n + 1..<epochs + 1]) (?s0 d) = Inr s"
      by simp
    from for_epochs_prefix[OF this] obtain s_n where
      "for_epochs bw opt [1..<n + 1] (?s0 d) = Inr s_n"
      by blast
    with for_epochs_sampled[OF this] show ?thesis by simp
  qed
  have frame: "\<forall>epoch s1 s2. train bw opt epoch s1 = Inr s2 \<longrightarrow>
              sampled s2 = sampled s1 \<and>
              (optimizer s2, model s2) =
                opt (optimizer s1) (bw (objective (sampled s1)) (model s1)) (model s1) \<and>
              param_grad s2 = Some (bw (objective (sampled s1)) (model s1)) \<and>
              x_int_train_grad s2 =
                accumulate_grad (x_int_train_grad s1)
                  (x_int_gradient (model s1) (x_int_train (sampled s1))) \<and>
              (\<exists>l_ic. loss_ic (model s1) (x_ic_train (sampled s1)) (u_ic_train (sampled s1)) =
                        Inr l_ic \<and>
                 stdout s2 = stdout s1 @
                   [Losses epoch (loss_pde (model s1) (x_int_train (sampled s1))) l_ic,
                    Total epoch
                      (total_loss (loss_pde (model s1) (x_int_train (sampled s1))) l_ic)]) \<and>
              s2 = s1\<lparr>x_int_train_grad := x_int_train_grad s2, model := model s2,
                      param_grad := param_grad s2, optimizer := optimizer s2,
                      stdout := stdout s2\<rparr>"
    by (intro allI impI) (rule train_frame)
  from d fin mid frame show ?thesis by blast
qed

theorem sampled_once_and_epoch_frame_witness:
  "\<exists>s u d. main unit_backward keep_parameters () zero_net [0, 999] [0, 999999] = Inr (s, u) \<and>
     sampling (linspace (-2.625) 2.5 num_x) (linspace 0 1.5 num_t)
       (linspace (-1) 1 num_x) (linspace 0 1.5 num_t) [0, 999] [0, 999999] = Inr d \<and>
     sampled s = d \<and> length (x_ic_train d) = 2 \<and> length (x_int_train d) = 2"
proof -
  have 1: "\<forall>i\<in>set [0, 999]. i < num_x" and 2: "\<forall>k\<in>set [0, 999999]. k < num_x * num_t"
    by (simp_all add: num_x_def num_t_def)
  from main_runs[OF 1 2, of unit_backward keep_parameters zero_net "()"] obtain s u where
    m: "main unit_backward keep_parameters () zero_net [0, 999] [0, 999999] = Inr (s, u)"
    by blast
  from sampled_once_and_epoch_frame[OF m] obtain d where
    d: "sampling (linspace (-2.625) 2.5 num_x) (linspace 0 1.5 num_t)
       (linspace (-1) 1 num_x) (linspace 0 1.5 num_t) [0, 999] [0, 999999] = Inr d"
      "sampled s = d" by blast
  have t: "linspace 0 1.5 num_t \<noteq> []" by (simp add: linspace_def num_t_def)
  from 1 2 have "length (x_ic_train d) = 2 \<and> length (x_int_train d) = 2"
    using d(1) sampling_eq[of "[0, 999]" "linspace (-2.625) 2.5 num_x" "[0, 999999]"
        "linspace 0 1.5 num_t" "linspace (-1) 1 num_x" "linspace 0 1.5 num_t", OF _ _ t]
    by (auto simp: length_linspace)
  with m d show ?thesis by blast
qed

end
